theory Spec2Isabelle
  imports Complex_Main "HOL-Library.Log_Nat" "HOL-Library.Word"
begin

section \<open>The point generator of \<^verbatim>\<open>bin/generate_points.py\<close>\<close>

text \<open>
  The script is one straight-line block:
  \<^verbatim>\<open>
    MAX_COORDINATE = 100000
    NUM_POINTS = 100000
    FILE_PATH = './data/points.txt'
    np.random.seed(1701)
    points = np.random.rand(NUM_POINTS, 3) * MAX_COORDINATE
    np.savetxt(FILE_PATH, points, fmt='%.4f')
    print(NUM_POINTS, "points are written to", FILE_PATH)
  \<close>
  Everything it does is done by four library calls. Each call is modelled below by what it
  computes: binary64 values are the rationals they denote, the generator's stream of raw
  draws is a parameter, the file system, the free space of the disk and standard output
  are explicit state.
\<close>

subsection \<open>The constants of the script\<close>

definition MAX_COORDINATE :: int where
  "MAX_COORDINATE = 100000"

definition NUM_POINTS :: nat where
  "NUM_POINTS = 100000"

definition FILE_PATH :: string where
  "FILE_PATH = ''./data/points.txt''"

definition SEED :: nat where
  \<comment> \<open>the literal argument of \<^verbatim>\<open>np.random.seed(1701)\<close>\<close>
  "SEED = 1701"

subsection \<open>binary64 arithmetic on exact values\<close>

text \<open>
  A finite binary64 number is modelled by the rational it denotes. An arithmetic result is
  the exact result rounded to 53 significant bits, ties to even, with the subnormal
  exponent floor of binary64. Values beyond the largest finite binary64 number (where the
  hardware gives infinity) are outside the model; the script's products stay below
  \<open>2 ^ 17\<close>.
\<close>

definition round_half_even :: "rat \<Rightarrow> int" where
  "round_half_even x =
     (let f = \<lfloor>x\<rfloor>; d = x - of_int f
      in if d < 1 / 2 then f
         else if 1 / 2 < d then f + 1
         else if even f then f else f + 1)"

definition pow2 :: "int \<Rightarrow> rat" where
  "pow2 e = (if 0 \<le> e then 2 ^ nat e else 1 / 2 ^ nat (- e))"

definition ilog2 :: "rat \<Rightarrow> int" where
  \<comment> \<open>\<open>\<lfloor>log\<^sub>2 x\<rfloor>\<close> for \<open>0 < x\<close>: the binary exponent of \<open>x\<close>\<close>
  "ilog2 x = (if 1 \<le> x then bitlen \<lfloor>x\<rfloor> - 1 else - bitlen (\<lceil>1 / x\<rceil> - 1))"

definition ulp :: "rat \<Rightarrow> rat" where
  \<comment> \<open>the spacing of binary64 numbers around \<open>x \<noteq> 0\<close>\<close>
  "ulp x = pow2 (max (ilog2 \<bar>x\<bar>) (- 1022) - 52)"

definition to_double :: "rat \<Rightarrow> rat" where
  "to_double x = (if x = 0 then 0 else of_int (round_half_even (x / ulp x)) * ulp x)"

definition fmul :: "rat \<Rightarrow> rat \<Rightarrow> rat" where
  \<comment> \<open>the binary64 product\<close>
  "fmul x y = to_double (x * y)"

subsection \<open>The seeded generator: \<^verbatim>\<open>np.random.seed\<close> and \<^verbatim>\<open>np.random.rand\<close>\<close>

text \<open>
  NumPy's global generator is a Mersenne Twister. One uniform draw takes 53 random bits
  \<open>k\<close> from it and returns the binary64 number \<open>k / 2\<^sup>5\<^sup>3\<close>, which is exact and lies in
  \<open>[0, 1)\<close>. The bit stream that a seed determines is the parameter \<open>gen\<close> of the model
  (seed, position of the draw \<open>\<mapsto>\<close> the 53 bits); the state of the generator is the
  stream it was seeded with and the number of draws taken so far.
\<close>

type_synonym bit_source = "nat \<Rightarrow> nat \<Rightarrow> 53 word"

record rng_state =
  stream :: "nat \<Rightarrow> 53 word"
  pos :: nat

definition uniform_of :: "53 word \<Rightarrow> rat" where
  "uniform_of k = of_int (uint k) / 2 ^ 53"

definition random_sample :: "rng_state \<Rightarrow> rat \<times> rng_state" where
  "random_sample st = (uniform_of (stream st (pos st)), st\<lparr>pos := pos st + 1\<rparr>)"

fun draw_row :: "nat \<Rightarrow> rng_state \<Rightarrow> rat list \<times> rng_state" where
  "draw_row 0 st = ([], st)"
| "draw_row (Suc d) st =
     (let (x, st1) = random_sample st; (xs, st2) = draw_row d st1 in (x # xs, st2))"

fun rand :: "nat \<Rightarrow> nat \<Rightarrow> rng_state \<Rightarrow> rat list list \<times> rng_state" where
  \<comment> \<open>\<^verbatim>\<open>np.random.rand(n, d)\<close>: \<open>n\<close> rows of \<open>d\<close> draws, filled row by row\<close>
  "rand 0 d st = ([], st)"
| "rand (Suc n) d st =
     (let (r, st1) = draw_row d st; (rs, st2) = rand n d st1 in (r # rs, st2))"

definition scale :: "rat list list \<Rightarrow> int \<Rightarrow> rat list list" where
  \<comment> \<open>\<^verbatim>\<open>array * m\<close>: the integer becomes a binary64 number, then every entry is multiplied\<close>
  "scale X m = map (map (\<lambda>u. fmul u (to_double (of_int m)))) X"

subsection \<open>Text: \<^verbatim>\<open>str\<close>, \<^verbatim>\<open>'%.4f'\<close>, \<^verbatim>\<open>join\<close>\<close>

definition newline :: string where
  "newline = [CHR 0x0A]"

definition digit_char :: "int \<Rightarrow> char" where
  \<comment> \<open>the last decimal digit of \<open>d\<close>\<close>
  "digit_char d = ''0123456789'' ! nat (d mod 10)"

function str_digits :: "int \<Rightarrow> string" where
  "str_digits n = (if n < 10 then [digit_char n] else str_digits (n div 10) @ [digit_char n])"
  by pat_completeness auto
termination
  by (relation "measure nat") auto

declare str_digits.simps [simp del]

definition str_int :: "int \<Rightarrow> string" where
  \<comment> \<open>\<^verbatim>\<open>str(n)\<close> of an integer\<close>
  "str_int n = (if n < 0 then ''-'' @ str_digits (- n) else str_digits n)"

definition frac4 :: "int \<Rightarrow> string" where
  \<comment> \<open>four decimal digits, zero padded\<close>
  "frac4 m = [digit_char (m div 1000), digit_char (m div 100), digit_char (m div 10), digit_char m]"

definition format_4f :: "rat \<Rightarrow> string" where
  \<comment> \<open>\<^verbatim>\<open>'%.4f' % x\<close>: the exact value rounded to four decimals, ties to even, in
      fixed-point notation\<close>
  "format_4f x =
     (let n = round_half_even (\<bar>x\<bar> * 10000)
      in (if x < 0 then ''-'' else []) @ str_digits (n div 10000) @ ''.'' @ frac4 (n mod 10000))"

fun join :: "string \<Rightarrow> string list \<Rightarrow> string" where
  \<comment> \<open>\<^verbatim>\<open>sep.join(xs)\<close>\<close>
  "join sep [] = []"
| "join sep [x] = x"
| "join sep (x # y # ys) = x @ sep @ join sep (y # ys)"

definition format_row :: "rat list \<Rightarrow> string" where
  \<comment> \<open>\<^verbatim>\<open>' '.join(['%.4f'] * ncol) % tuple(row)\<close>\<close>
  "format_row row = join '' '' (map format_4f row)"

subsection \<open>The file system and \<^verbatim>\<open>open(path, 'w')\<close>\<close>

text \<open>
  A POSIX file system, as far as opening a file for writing looks at it: a path names
  nothing, a directory or a regular file; directories and files carry a write permission
  of the running (unprivileged) process. Paths are the strings the script uses, read
  relative to the working directory. The disk takes a number of further bytes and no
  more; truncating a file gives the bytes of its content back. Search permission, links
  and devices are outside the model.
\<close>

datatype node = Dir bool | File bool string

type_synonym filesystem = "string \<Rightarrow> node option"

datatype os_error =
  FileNotFoundError | NotADirectoryError | IsADirectoryError | PermissionError
  | NoSpaceError  \<comment> \<open>\<^verbatim>\<open>OSError\<close> with \<^verbatim>\<open>ENOSPC\<close>: no space left on device\<close>

definition dirname :: "string \<Rightarrow> string" where
  \<comment> \<open>the path up to its last \<open>/\<close>, without trailing separators unless it is the root\<close>
  "dirname p =
     (let head = rev (dropWhile (\<lambda>c. c \<noteq> CHR ''/'') (rev p))
      in if list_all (\<lambda>c. c = CHR ''/'') head then head
         else rev (dropWhile (\<lambda>c. c = CHR ''/'') (rev head)))"

definition open_w :: "string \<Rightarrow> filesystem \<Rightarrow> os_error + filesystem" where
  \<comment> \<open>open for writing: create the file or truncate it\<close>
  "open_w p fs =
     (case fs (dirname p) of
        None \<Rightarrow> Inl FileNotFoundError
      | Some (File _ _) \<Rightarrow> Inl NotADirectoryError
      | Some (Dir dw) \<Rightarrow>
          (case fs p of
             Some (Dir _) \<Rightarrow> Inl IsADirectoryError
           | Some (File fw _) \<Rightarrow> if fw then Inr (fs(p \<mapsto> File fw [])) else Inl PermissionError
           | None \<Rightarrow> if dw then Inr (fs(p \<mapsto> File True [])) else Inl PermissionError))"

type_synonym disk = "filesystem \<times> nat"
  \<comment> \<open>what the paths name, and the number of bytes the disk can still take\<close>

definition truncated :: "string \<Rightarrow> filesystem \<Rightarrow> nat" where
  \<comment> \<open>the bytes that opening \<open>p\<close> for writing gives back to the disk\<close>
  "truncated p fs = (case fs p of Some (File _ c) \<Rightarrow> length c | _ \<Rightarrow> 0)"

definition write_str :: "string \<Rightarrow> string \<Rightarrow> disk \<Rightarrow> os_error option \<times> disk" where
  \<comment> \<open>\<^verbatim>\<open>fh.write(v)\<close> on the file opened at \<open>p\<close>: append; when the disk cannot take
      all of \<open>v\<close>, what fits is written and the write raises\<close>
  "write_str p v d =
     (case d of (fs, k) \<Rightarrow>
        (case fs p of
           Some (File fw c) \<Rightarrow>
             if length v \<le> k then (None, fs(p \<mapsto> File fw (c @ v)), k - length v)
             else (Some NoSpaceError, fs(p \<mapsto> File fw (c @ take k v)), 0)
         | _ \<Rightarrow> (None, fs, k)))"

definition read_file :: "filesystem \<Rightarrow> string \<Rightarrow> string option" where
  "read_file fs p = (case fs p of Some (File _ c) \<Rightarrow> Some c | _ \<Rightarrow> None)"

subsection \<open>\<^verbatim>\<open>np.savetxt\<close>, \<^verbatim>\<open>print\<close> and the script\<close>

fun write_rows :: "string \<Rightarrow> rat list list \<Rightarrow> disk \<Rightarrow> os_error option \<times> disk" where
  \<comment> \<open>\<^verbatim>\<open>for row in X: fh.write(format % tuple(row) + newline)\<close>; a write that raises
      ends the loop\<close>
  "write_rows p [] d = (None, d)"
| "write_rows p (row # rows) d =
     (case write_str p (format_row row @ newline) d of
        (Some e, d1) \<Rightarrow> (Some e, d1)
      | (None, d1) \<Rightarrow> write_rows p rows d1)"

definition savetxt :: "string \<Rightarrow> rat list list \<Rightarrow> disk \<Rightarrow> os_error option \<times> disk" where
  \<comment> \<open>with the defaults of the call: delimiter \<open>' '\<close>, newline \<open>'\n'\<close>, no header, no footer;
      for a file name without a compression suffix, as the script's. The file is opened
      before the first row is formatted; an error of the open or of a write is raised to
      the caller\<close>
  "savetxt fname X d =
     (case d of (fs, k) \<Rightarrow>
        (case open_w fname fs of
           Inl e \<Rightarrow> (Some e, d)
         | Inr fs1 \<Rightarrow> write_rows fname X (fs1, k + truncated fname fs)))"

record world =
  rng :: rng_state
  files :: filesystem
  free :: nat
  stdout :: string

definition print :: "string list \<Rightarrow> world \<Rightarrow> world" where
  \<comment> \<open>\<^verbatim>\<open>print(*args)\<close> of already converted arguments: separated by one space, ended
      by a newline\<close>
  "print args w = w\<lparr>stdout := stdout w @ join '' '' args @ newline\<rparr>"

definition seed :: "bit_source \<Rightarrow> nat \<Rightarrow> world \<Rightarrow> world" where
  \<comment> \<open>\<^verbatim>\<open>np.random.seed(s)\<close>\<close>
  "seed gen s w = w\<lparr>rng := \<lparr>stream = gen s, pos = 0\<rparr>\<rparr>"

datatype exit = Exit0 | Uncaught os_error
  \<comment> \<open>how the process ends: normally, or by an exception that nothing catches\<close>

definition generate_points ::
  "bit_source \<Rightarrow> nat \<Rightarrow> int \<Rightarrow> nat \<Rightarrow> string \<Rightarrow> world \<Rightarrow> exit \<times> world" where
  \<comment> \<open>the body of the script, over its four literals\<close>
  "generate_points gen s max_coordinate num_points file_path w =
     (let w1 = seed gen s w;
          (U, r) = rand num_points 3 (rng w1);
          w2 = w1\<lparr>rng := r\<rparr>;
          points = scale U max_coordinate
      in case savetxt file_path points (files w2, free w2) of
           (Some e, (fs, k)) \<Rightarrow> (Uncaught e, w2\<lparr>files := fs, free := k\<rparr>)
         | (None, (fs, k)) \<Rightarrow>
             (Exit0, print [str_int (int num_points), ''points are written to'', file_path]
                       (w2\<lparr>files := fs, free := k\<rparr>)))"

definition main :: "bit_source \<Rightarrow> world \<Rightarrow> exit \<times> world" where
  "main gen w = generate_points gen SEED MAX_COORDINATE NUM_POINTS FILE_PATH w"

subsection \<open>Reading the output back\<close>

text \<open>
  The properties of the output file are stated on what a reader of the file finds:
  its newline-terminated lines, the fields of a line between single spaces, and the
  exact value of a field written as digits, a point and four digits.
\<close>

fun lines_acc :: "string \<Rightarrow> string \<Rightarrow> string list option" where
  "lines_acc cur [] = (if cur = [] then Some [] else None)"
| "lines_acc cur (c # cs) =
     (if c = CHR 0x0A then map_option ((#) (rev cur)) (lines_acc [] cs)
      else lines_acc (c # cur) cs)"

definition lines_of :: "string \<Rightarrow> string list option" where
  \<comment> \<open>the lines of a text in which every line ends with a newline; \<open>None\<close> otherwise\<close>
  "lines_of s = lines_acc [] s"

fun split_on :: "char \<Rightarrow> string \<Rightarrow> string list" where
  "split_on d [] = [[]]"
| "split_on d (c # cs) =
     (if c = d then [] # split_on d cs
      else (case split_on d cs of [] \<Rightarrow> [[c]] | f # fs \<Rightarrow> (c # f) # fs))"

definition digit_val :: "char \<Rightarrow> int option" where
  "digit_val c =
     (if c = CHR ''0'' then Some 0 else if c = CHR ''1'' then Some 1
      else if c = CHR ''2'' then Some 2 else if c = CHR ''3'' then Some 3
      else if c = CHR ''4'' then Some 4 else if c = CHR ''5'' then Some 5
      else if c = CHR ''6'' then Some 6 else if c = CHR ''7'' then Some 7
      else if c = CHR ''8'' then Some 8 else if c = CHR ''9'' then Some 9
      else None)"

fun digits_acc :: "int \<Rightarrow> string \<Rightarrow> int option" where
  "digits_acc a [] = Some a"
| "digits_acc a (c # cs) =
     (case digit_val c of None \<Rightarrow> None | Some v \<Rightarrow> digits_acc (10 * a + v) cs)"

definition digits_val :: "string \<Rightarrow> int option" where
  \<comment> \<open>the number written by a non-empty string of decimal digits\<close>
  "digits_val s = (if s = [] then None else digits_acc 0 s)"

definition parse_4f :: "string \<Rightarrow> rat option" where
  \<comment> \<open>the value of \<open>digits.dddd\<close>; \<open>None\<close> for any other text\<close>
  "parse_4f s =
     (case split_on CHR ''.'' s of
        [ip, fp] \<Rightarrow>
          (if length fp = 4
           then (case (digits_val ip, digits_val fp) of
                   (Some a, Some b) \<Rightarrow> Some (of_int a + of_int b / 10000)
                 | _ \<Rightarrow> None)
           else None)
      | _ \<Rightarrow> None)"

definition parse_line :: "string \<Rightarrow> rat list option" where
  \<comment> \<open>the fields of a line, each a fixed-point number; \<open>None\<close> if a field is not one\<close>
  "parse_line l = those (map parse_4f (split_on CHR '' '' l))"

definition parse_text :: "string \<Rightarrow> rat list list option" where
  "parse_text s = (case lines_of s of None \<Rightarrow> None | Some ls \<Rightarrow> those (map parse_line ls))"

definition is_digit :: "char \<Rightarrow> bool" where
  "is_digit c = (digit_val c \<noteq> None)"

definition is_fixed4 :: "string \<Rightarrow> bool" where
  \<comment> \<open>one or more digits, a point, exactly four digits: no sign, no exponent\<close>
  "is_fixed4 s =
     (case split_on CHR ''.'' s of
        [ip, fp] \<Rightarrow> ip \<noteq> [] \<and> list_all is_digit ip \<and> length fp = 4 \<and> list_all is_digit fp
      | _ \<Rightarrow> False)"

definition output_of :: "exit \<times> world \<Rightarrow> string \<Rightarrow> string option" where
  \<comment> \<open>the content of the file at a path after a run\<close>
  "output_of res p = read_file (files (snd res)) p"

definition parsed_output :: "exit \<times> world \<Rightarrow> string \<Rightarrow> rat list list option" where
  \<comment> \<open>the coordinates read back from the file at a path after a run, line by line\<close>
  "parsed_output res p = (case output_of res p of None \<Rightarrow> None | Some t \<Rightarrow> parse_text t)"


subsection \<open>What the run is expected to produce\<close>

definition coordinate_of :: "int \<Rightarrow> 53 word \<Rightarrow> rat" where
  \<comment> \<open>the coordinate computed from one draw: the draw times the scale, in binary64\<close>
  "coordinate_of m k = fmul (uniform_of k) (to_double (of_int m))"

definition point_of :: "(nat \<Rightarrow> 53 word) \<Rightarrow> int \<Rightarrow> nat \<Rightarrow> rat list" where
  \<comment> \<open>point \<open>i\<close> is made of the draws \<open>3i\<close>, \<open>3i + 1\<close>, \<open>3i + 2\<close> of the stream\<close>
  "point_of g m i =
     [coordinate_of m (g (3 * i)), coordinate_of m (g (3 * i + 1)), coordinate_of m (g (3 * i + 2))]"

definition points_of :: "(nat \<Rightarrow> 53 word) \<Rightarrow> int \<Rightarrow> nat \<Rightarrow> rat list list" where
  "points_of g m n = map (point_of g m) [0..<n]"

definition text_of :: "(nat \<Rightarrow> 53 word) \<Rightarrow> int \<Rightarrow> nat \<Rightarrow> string" where
  \<comment> \<open>one line per point, in the order of the points; a function of the stream of the
      seed, the scale and the count only\<close>
  "text_of g m n = concat (map (\<lambda>pt. format_row pt @ newline) (points_of g m n))"

definition scaled :: "rat \<Rightarrow> int" where
  \<comment> \<open>the number of ten-thousandths that \<^verbatim>\<open>'%.4f'\<close> prints for a value\<close>
  "scaled x = round_half_even (x * 10000)"

definition round4 :: "rat \<Rightarrow> rat" where
  \<comment> \<open>the nearest multiple of \<open>10\<^sup>-\<^sup>4\<close>, ties to the even multiple\<close>
  "round4 x = of_int (round_half_even (x * 10000)) / 10000"

definition confirmation :: "nat \<Rightarrow> string \<Rightarrow> string" where
  "confirmation n p = str_int (int n) @ '' points are written to '' @ p @ newline"

subsection \<open>Sample inputs\<close>

definition demo_source :: bit_source where
  \<comment> \<open>a stream with a different draw at every position\<close>
  "demo_source s i = word_of_int (1234567890123456 * (int i + 1))"

definition max_source :: bit_source where
  \<comment> \<open>every draw is the largest one, \<open>2\<^sup>5\<^sup>3 - 1\<close>\<close>
  "max_source s i = 9007199254740991"

definition demo_world :: world where
  \<comment> \<open>the directory \<^verbatim>\<open>./data\<close> exists and is writable, the file does not exist yet\<close>
  "demo_world =
     \<lparr>rng = \<lparr>stream = max_source 0, pos = 5\<rparr>,
      files = [''./data'' \<mapsto> Dir True],
      free = 1000000000,
      stdout = []\<rparr>"

definition stale_world :: world where
  \<comment> \<open>as \<open>demo_world\<close>, with an older output file and earlier output on the terminal\<close>
  "stale_world =
     \<lparr>rng = \<lparr>stream = demo_source 7, pos = 0\<rparr>,
      files = [''./data'' \<mapsto> Dir True, ''./data/points.txt'' \<mapsto> File True ''1.0000 2.0000''],
      free = 1000000000,
      stdout = ''$ ''\<rparr>"

definition bare_world :: world where
  \<comment> \<open>the directory \<^verbatim>\<open>./data\<close> does not exist\<close>
  "bare_world =
     \<lparr>rng = \<lparr>stream = max_source 0, pos = 0\<rparr>, files = Map.empty, free = 1000000000,
      stdout = []\<rparr>"



definition full_world :: world where
  \<comment> \<open>the directory exists and is writable, the file does not exist, and the disk takes
      40 more bytes\<close>
  "full_world =
     \<lparr>rng = \<lparr>stream = max_source 0, pos = 0\<rparr>,
      files = [''./data'' \<mapsto> Dir True],
      free = 40,
      stdout = ''$ ''\<rparr>"

definition first_max_draw :: int where
  \<comment> \<open>the least draw \<open>k\<close> whose coordinate \<open>k / 2\<^sup>5\<^sup>3 \<sqdot> 100000\<close> is written as
      \<^verbatim>\<open>100000.0000\<close>\<close>
  "first_max_draw = 9007199250237393"

section \<open>Rounding\<close>

subsection \<open>Rounding to the nearest integer\<close>

lemma rhe_cases:
  "round_half_even x = \<lfloor>x\<rfloor> \<and> x - of_int \<lfloor>x\<rfloor> \<le> 1 / 2 \<or>
   round_half_even x = \<lfloor>x\<rfloor> + 1 \<and> 1 / 2 \<le> x - of_int \<lfloor>x\<rfloor>"
  unfolding round_half_even_def Let_def
  by (cases "x - of_int \<lfloor>x\<rfloor> < 1 / 2"; cases "1 / 2 < x - of_int \<lfloor>x\<rfloor>"; cases "even \<lfloor>x\<rfloor>"; simp)

lemma rhe_bounds:
  "of_int (round_half_even x) - x \<le> 1 / 2 \<and> x - of_int (round_half_even x) \<le> 1 / 2"
proof -
  define f where "f = \<lfloor>x\<rfloor>"
  define r where "r = round_half_even x"
  have 1: "of_int f \<le> x" and 2: "x < of_int f + 1"
    unfolding f_def by linarith+
  have "r = f \<and> x - of_int f \<le> 1 / 2 \<or> r = f + 1 \<and> 1 / 2 \<le> x - of_int f"
    unfolding f_def r_def by (rule rhe_cases)
  then show ?thesis
    unfolding r_def[symmetric] using 1 2 by (elim disjE conjE) simp_all
qed

lemma rhe_upper: "of_int (round_half_even x) - x \<le> 1 / 2"
  using rhe_bounds[of x] by simp

lemma rhe_lower: "x - of_int (round_half_even x) \<le> 1 / 2"
  using rhe_bounds[of x] by simp

lemma rhe_of_int: "round_half_even (of_int n) = n"
  unfolding round_half_even_def Let_def by simp

lemma rhe_le: "x \<le> of_int n \<Longrightarrow> round_half_even x \<le> n"
proof -
  assume a: "x \<le> of_int n"
  have fl: "\<lfloor>x\<rfloor> \<le> n" using a by (simp add: floor_le_iff)
  show ?thesis
  proof (cases "x = of_int \<lfloor>x\<rfloor>")
    case True
    then have "round_half_even x = \<lfloor>x\<rfloor>" using rhe_cases[of x] by auto
    with fl show ?thesis by simp
  next
    case False
    then have "of_int \<lfloor>x\<rfloor> < x" by (metis of_int_floor_le order_less_le)
    then have "of_int \<lfloor>x\<rfloor> < (of_int n :: rat)" using a by linarith
    then have "\<lfloor>x\<rfloor> < n" by (simp only: of_int_less_iff)
    moreover have "round_half_even x \<le> \<lfloor>x\<rfloor> + 1" using rhe_cases[of x] by auto
    ultimately show ?thesis by linarith
  qed
qed

lemma rhe_ge: "of_int n \<le> x \<Longrightarrow> n \<le> round_half_even x"
proof -
  assume "of_int n \<le> x"
  then have "n \<le> \<lfloor>x\<rfloor>" by (simp add: le_floor_iff)
  moreover have "\<lfloor>x\<rfloor> \<le> round_half_even x" using rhe_cases[of x] by auto
  ultimately show ?thesis by linarith
qed

subsection \<open>Powers of two\<close>

lemma pow2_pos: "0 < pow2 e"
  by (simp add: pow2_def)

lemma pow2_powi: "pow2 e = 2 powi e"
  by (simp add: pow2_def power_int_def power_one_over[symmetric] inverse_eq_divide)

lemma pow2_add: "pow2 (a + b) = pow2 a * pow2 b"
  by (simp add: pow2_powi power_int_add)

lemma pow2_mono: "a \<le> b \<Longrightarrow> pow2 a \<le> pow2 b"
  by (simp add: pow2_powi power_int_increasing)

lemma pow2_less_cancel: "pow2 a < pow2 b \<Longrightarrow> a < b"
  using pow2_mono[of b a] by linarith

lemma pow2_nat: "pow2 (int n) = 2 ^ n"
  by (simp add: pow2_def)

subsection \<open>Rounding to binary64\<close>

lemma ilog2_le: "0 < x \<Longrightarrow> pow2 (ilog2 x) \<le> x"
proof -
  assume pos: "0 < x"
  show ?thesis
  proof (cases "1 \<le> x")
    case True
    then have n: "0 < \<lfloor>x\<rfloor>" by simp
    from bitlen_bounds[OF n] have "2 ^ nat (bitlen \<lfloor>x\<rfloor> - 1) \<le> \<lfloor>x\<rfloor>" by simp
    then have "(of_int (2 ^ nat (bitlen \<lfloor>x\<rfloor> - 1)) :: rat) \<le> of_int \<lfloor>x\<rfloor>"
      by (simp only: of_int_le_iff)
    also have "\<dots> \<le> x" by simp
    finally have "(2::rat) ^ nat (bitlen \<lfloor>x\<rfloor> - 1) \<le> x" by simp
    moreover have "0 \<le> bitlen \<lfloor>x\<rfloor> - 1" using n by (simp add: bitlen_alt_def)
    ultimately show ?thesis using True by (simp add: ilog2_def pow2_def)
  next
    case False
    then have lt: "x < 1" by simp
    define m where "m = \<lceil>1 / x\<rceil> - 1"
    have "1 < 1 / x" using pos lt by simp
    then have "1 < \<lceil>1 / x\<rceil>" by (simp add: less_ceiling_iff)
    then have m: "0 < m" by (simp add: m_def)
    from bitlen_bounds[OF m] have "m < 2 ^ nat (bitlen m)" by simp
    then have "\<lceil>1 / x\<rceil> \<le> 2 ^ nat (bitlen m)" by (simp add: m_def)
    then have "1 / x \<le> of_int (2 ^ nat (bitlen m))" by (simp only: ceiling_le_iff)
    then have "1 / x \<le> 2 ^ nat (bitlen m)" by simp
    then have "1 \<le> 2 ^ nat (bitlen m) * x" using pos by (simp add: field_simps)
    then have "1 / 2 ^ nat (bitlen m) \<le> x" by (simp add: field_simps)
    moreover have "0 \<le> bitlen m" by (rule bitlen_nonneg)
    moreover have "bitlen m \<noteq> 0" using m by (simp add: bitlen_eq_zero_iff)
    ultimately show ?thesis using False
      by (simp add: ilog2_def pow2_def m_def[symmetric])
  qed
qed

lemma ulp_pos: "0 < ulp x"
  by (simp add: ulp_def pow2_pos)

lemma ilog2_less: "0 < x \<Longrightarrow> x < 2 ^ n \<Longrightarrow> ilog2 x < int n"
proof -
  assume "0 < x" and "x < 2 ^ n"
  then have "pow2 (ilog2 x) < pow2 (int n)"
    using ilog2_le[of x] by (simp add: pow2_nat)
  then show ?thesis by (rule pow2_less_cancel)
qed

lemma ulp_fraction:
  assumes "0 < x" and "x < 2 ^ 53"
  shows "\<exists>k. ulp x = 1 / 2 ^ k"
proof -
  have "ilog2 x < 53" using ilog2_less[OF assms] by simp
  then have "max (ilog2 x) (- 1022) - 52 \<le> 0" by simp
  then have "pow2 (max (ilog2 x) (- 1022) - 52) = 1 / 2 ^ nat (- (max (ilog2 x) (- 1022) - 52))"
    by (cases "max (ilog2 x) (- 1022) - 52 = 0") (simp_all add: pow2_def)
  then show ?thesis using assms(1) unfolding ulp_def by auto
qed

lemma to_double_nonneg: "0 \<le> x \<Longrightarrow> 0 \<le> to_double x"
proof -
  assume "0 \<le> x"
  then have "of_int 0 \<le> x / ulp x" using ulp_pos[of x] by simp
  then have "0 \<le> round_half_even (x / ulp x)" by (rule rhe_ge)
  then show ?thesis using ulp_pos[of x] by (simp add: to_double_def)
qed

lemma to_double_le_int:
  assumes "0 \<le> x" and "x \<le> of_int m" and "m < 2 ^ 53"
  shows "to_double x \<le> of_int m"
proof (cases "x = 0")
  case True
  then show ?thesis using assms by (simp add: to_double_def)
next
  case False
  then have pos: "0 < x" using assms(1) by simp
  have "x < 2 ^ 53"
  proof -
    have "(of_int m :: rat) < of_int (2 ^ 53)" using assms(3) by (simp only: of_int_less_iff)
    then show ?thesis using assms(2) by simp
  qed
  from ulp_fraction[OF pos this] obtain k where u: "ulp x = 1 / 2 ^ k" by blast
  have "x / ulp x \<le> of_int m / ulp x"
    using assms(2) ulp_pos[of x] by (simp add: divide_right_mono)
  also have "of_int m / ulp x = of_int (m * 2 ^ k)" by (simp add: u)
  finally have "round_half_even (x / ulp x) \<le> m * 2 ^ k" by (rule rhe_le)
  then have "(of_int (round_half_even (x / ulp x)) :: rat) \<le> of_int (m * 2 ^ k)"
    by (simp only: of_int_le_iff)
  then have "of_int (round_half_even (x / ulp x)) * ulp x \<le> of_int (m * 2 ^ k) * ulp x"
    using ulp_pos[of x] by (simp only: mult_le_cancel_right_pos)
  also have "of_int (m * 2 ^ k) * ulp x = of_int m" by (simp add: u)
  finally show ?thesis using False by (simp add: to_double_def)
qed

lemma to_double_of_int:
  assumes "0 \<le> m" and "m < 2 ^ 53"
  shows "to_double (of_int m) = of_int m"
proof (cases "m = 0")
  case True
  then show ?thesis by (simp add: to_double_def)
next
  case False
  define x :: rat where "x = of_int m"
  have pos: "0 < x" using False assms(1) by (simp add: x_def)
  have "(of_int m :: rat) < of_int (2 ^ 53)" using assms(2) by (simp only: of_int_less_iff)
  then have "x < 2 ^ 53" by (simp add: x_def)
  from ulp_fraction[OF pos this] obtain k where u: "ulp x = 1 / 2 ^ k" by blast
  have "x / ulp x = of_int (m * 2 ^ k)" unfolding u by (simp add: x_def)
  then have "round_half_even (x / ulp x) = m * 2 ^ k" by (simp only: rhe_of_int)
  then have "to_double x = of_int (m * 2 ^ k) * ulp x" using pos by (simp add: to_double_def)
  also have "\<dots> = x" unfolding u by (simp add: x_def)
  finally show ?thesis by (simp add: x_def)
qed

subsection \<open>The range of a coordinate and of its four-decimal rounding\<close>

lemma to_double_upper: "0 < x \<Longrightarrow> to_double x \<le> x + ulp x / 2"
proof -
  assume pos: "0 < x"
  have "(of_int (round_half_even (x / ulp x)) - x / ulp x) * ulp x \<le> (1 / 2) * ulp x"
    using rhe_upper[of "x / ulp x"] ulp_pos[of x] by (simp only: mult_le_cancel_right_pos)
  moreover have "(of_int (round_half_even (x / ulp x)) - x / ulp x) * ulp x
      = of_int (round_half_even (x / ulp x)) * ulp x - x"
    using ulp_pos[of x] by (simp add: left_diff_distrib)
  ultimately show ?thesis using pos by (simp add: to_double_def)
qed

lemma ulp_small:
  assumes "0 < x"
  shows "ulp x \<le> x / 2 ^ 52 \<or> ulp x \<le> 1 / 2 ^ 54"
proof (cases "- 1022 \<le> ilog2 x")
  case True
  then have "ulp x = pow2 (ilog2 x + (- 52))" using assms by (simp add: ulp_def max_def)
  also have "\<dots> = pow2 (ilog2 x) * pow2 (- 52)" by (rule pow2_add)
  also have "\<dots> \<le> x * pow2 (- 52)"
    using ilog2_le[OF assms] pow2_pos[of "- 52"] by (simp only: mult_le_cancel_right_pos)
  finally show ?thesis by (simp add: pow2_def)
next
  case False
  then have "ulp x = pow2 (- 1074)" using assms by (simp add: ulp_def max_def)
  also have "\<dots> \<le> pow2 (- 54)" by (rule pow2_mono) simp
  finally show ?thesis by (simp add: pow2_def)
qed

lemma to_double_less_int:
  assumes "0 \<le> x" and "x \<le> of_int m * (1 - 1 / 2 ^ 53)" and "0 < m"
  shows "to_double x < of_int m"
proof (cases "x = 0")
  case True
  then show ?thesis using assms by (simp add: to_double_def)
next
  case False
  then have pos: "0 < x" using assms(1) by simp
  define c :: rat where "c = 1 / 2 ^ 53"
  have c: "0 < c" "c < 1" by (simp_all add: c_def)
  have mpos: "(0::rat) < of_int m" and m1: "(1::rat) \<le> of_int m" using assms(3) by simp_all
  have xb: "x \<le> of_int m * (1 - c)" using assms(2) by (simp add: c_def)
  from ulp_small[OF pos] have "ulp x / 2 < of_int m - x"
  proof
    assume "ulp x \<le> x / 2 ^ 52"
    then have "ulp x / 2 \<le> x * c" by (simp add: c_def)
    moreover have "x * (1 + c) \<le> (of_int m * (1 - c)) * (1 + c)"
      using xb c by (simp only: mult_le_cancel_right) simp
    moreover have "(of_int m * (1 - c)) * (1 + c) = of_int m - of_int m * (c * c)"
      by (simp add: algebra_simps)
    moreover have "0 < of_int m * (c * c)" using mpos c by simp
    ultimately show ?thesis by (simp add: algebra_simps)
  next
    assume "ulp x \<le> 1 / 2 ^ 54"
    then have "ulp x / 2 < c" by (simp add: c_def)
    moreover have "of_int m * c \<ge> c" using m1 c by simp
    ultimately show ?thesis using xb by (simp add: algebra_simps)
  qed
  then show ?thesis using to_double_upper[OF pos] by simp
qed

lemma uniform_of_bounds: "0 \<le> uniform_of k" "uniform_of k \<le> 1 - 1 / 2 ^ 53"
proof -
  have "(0::rat) \<le> of_int (uint k)" by (simp only: of_int_0_le_iff uint_ge_0)
  then show "0 \<le> uniform_of k" unfolding uniform_of_def by (rule divide_nonneg_pos) simp
  have "uint k < 2 ^ 53" using uint_lt2p[of k] by simp
  then have "uint k \<le> 2 ^ 53 - 1" by simp
  then have "(of_int (uint k) :: rat) \<le> of_int (2 ^ 53 - 1)" by (simp only: of_int_le_iff)
  then show "uniform_of k \<le> 1 - 1 / 2 ^ 53" by (simp add: uniform_of_def field_simps)
qed

lemma to_double_MAX: "to_double (of_int MAX_COORDINATE) = of_int MAX_COORDINATE"
  by (rule to_double_of_int) (simp_all add: MAX_COORDINATE_def)

lemma coordinate_of_nonneg: "0 \<le> coordinate_of MAX_COORDINATE k"
  unfolding coordinate_of_def fmul_def to_double_MAX
  by (rule to_double_nonneg) (simp add: uniform_of_bounds MAX_COORDINATE_def)

lemma coordinate_of_less: "coordinate_of MAX_COORDINATE k < of_int MAX_COORDINATE"
  unfolding coordinate_of_def fmul_def to_double_MAX
proof (rule to_double_less_int)
  show "0 \<le> uniform_of k * of_int MAX_COORDINATE"
    by (simp add: uniform_of_bounds MAX_COORDINATE_def)
  show "uniform_of k * of_int MAX_COORDINATE \<le> of_int MAX_COORDINATE * (1 - 1 / 2 ^ 53)"
    using uniform_of_bounds(2)[of k] by (simp add: MAX_COORDINATE_def)
  show "0 < MAX_COORDINATE" by (simp add: MAX_COORDINATE_def)
qed

lemma round4_nonneg: "0 \<le> x \<Longrightarrow> 0 \<le> round4 x"
proof -
  assume "0 \<le> x"
  then have "of_int 0 \<le> x * 10000" by simp
  then have "0 \<le> round_half_even (x * 10000)" by (rule rhe_ge)
  then show ?thesis by (simp add: round4_def)
qed

lemma round4_le_int: "x \<le> of_int m \<Longrightarrow> round4 x \<le> of_int m"
proof -
  assume "x \<le> of_int m"
  then have "x * 10000 \<le> of_int (m * 10000)" by simp
  then have "round_half_even (x * 10000) \<le> m * 10000" by (rule rhe_le)
  then have "(of_int (round_half_even (x * 10000)) :: rat) \<le> of_int (m * 10000)"
    by (simp only: of_int_le_iff)
  then show ?thesis by (simp add: round4_def)
qed

lemma round4_error: "\<bar>round4 x - x\<bar> \<le> 5 / 100000"
proof -
  define a :: rat where "a = of_int (round_half_even (x * 10000))"
  have "a - x * 10000 \<le> 1 / 2" and "x * 10000 - a \<le> 1 / 2"
    unfolding a_def by (rule rhe_upper, rule rhe_lower)
  then have e: "\<bar>a - x * 10000\<bar> \<le> 1 / 2" by linarith
  have "round4 x - x = (a - x * 10000) / 10000"
    by (simp add: round4_def a_def[symmetric] diff_divide_distrib)
  then have "\<bar>round4 x - x\<bar> = \<bar>a - x * 10000\<bar> / 10000"
    by (simp only: abs_divide)
  with e show ?thesis by simp
qed

subsection \<open>The error of a coordinate and the samples written as the maximum\<close>

lemma rhe_mono: "x \<le> y \<Longrightarrow> round_half_even x \<le> round_half_even y"
proof -
  assume xy: "x \<le> y"
  then have fl: "\<lfloor>x\<rfloor> \<le> \<lfloor>y\<rfloor>" by (rule floor_mono)
  show ?thesis
  proof (cases "\<lfloor>x\<rfloor> = \<lfloor>y\<rfloor>")
    case True
    define f where "f = \<lfloor>y\<rfloor>"
    define dx where "dx = x - of_int f"
    define dy where "dy = y - of_int f"
    have d: "dx \<le> dy" using xy by (simp add: dx_def dy_def)
    have rx: "round_half_even x = (if dx < 1 / 2 then f else if 1 / 2 < dx then f + 1
                                   else if even f then f else f + 1)"
      by (simp add: round_half_even_def Let_def True f_def dx_def)
    have ry: "round_half_even y = (if dy < 1 / 2 then f else if 1 / 2 < dy then f + 1
                                   else if even f then f else f + 1)"
      by (simp add: round_half_even_def Let_def f_def dy_def)
    show ?thesis unfolding rx ry using d by auto
  next
    case False
    with fl have "\<lfloor>x\<rfloor> + 1 \<le> \<lfloor>y\<rfloor>" by linarith
    moreover have "round_half_even x \<le> \<lfloor>x\<rfloor> + 1" using rhe_cases[of x] by auto
    moreover have "\<lfloor>y\<rfloor> \<le> round_half_even y" using rhe_cases[of y] by auto
    ultimately show ?thesis by linarith
  qed
qed

lemma round4_mono: "x \<le> y \<Longrightarrow> round4 x \<le> round4 y"
proof -
  assume "x \<le> y"
  then have "x * 10000 \<le> y * 10000" by simp
  then have "round_half_even (x * 10000) \<le> round_half_even (y * 10000)" by (rule rhe_mono)
  then have "(of_int (round_half_even (x * 10000)) :: rat) \<le> of_int (round_half_even (y * 10000))"
    by (simp only: of_int_le_iff)
  then show ?thesis by (simp add: round4_def divide_right_mono)
qed

lemma ilog2_ge:
  assumes "2 ^ n \<le> x"
  shows "int n \<le> ilog2 x"
proof -
  have x1: "1 \<le> x" using assms one_le_power[of "2::rat" n] by linarith
  then have pos: "0 < \<lfloor>x\<rfloor>" by simp
  have "(2::rat) ^ n = of_int (2 ^ n)" by simp
  then have "of_int (2 ^ n) \<le> x" using assms by simp
  then have "2 ^ n \<le> \<lfloor>x\<rfloor>" by (simp only: le_floor_iff)
  also have "\<lfloor>x\<rfloor> < 2 ^ nat (bitlen \<lfloor>x\<rfloor>)" using bitlen_bounds[OF pos] by simp
  finally have "(2::int) ^ n < 2 ^ nat (bitlen \<lfloor>x\<rfloor>)" .
  then have "n < nat (bitlen \<lfloor>x\<rfloor>)" by (simp add: power_strict_increasing_iff)
  then show ?thesis using x1 by (simp add: ilog2_def)
qed

lemma ulp_binade16:
  assumes "2 ^ 16 \<le> x" and "x < 2 ^ 17"
  shows "ulp x = 1 / 2 ^ 36"
proof -
  have pos: "0 < x" using assms(1) by simp
  have "int 16 \<le> ilog2 x" using assms(1) by (rule ilog2_ge)
  moreover have "ilog2 x < int 17" using pos assms(2) by (rule ilog2_less)
  ultimately have "ilog2 x = 16" by simp
  then show ?thesis using pos by (simp add: ulp_def pow2_def)
qed

lemma to_double_binade16:
  assumes "2 ^ 16 \<le> x" and "x < 2 ^ 17"
  shows "to_double x = of_int (round_half_even (x * 2 ^ 36)) / 2 ^ 36"
proof -
  have "x \<noteq> 0" using assms(1) by auto
  then show ?thesis by (simp add: to_double_def ulp_binade16[OF assms])
qed

lemma to_double_lower: "0 < x \<Longrightarrow> x - ulp x / 2 \<le> to_double x"
proof -
  assume pos: "0 < x"
  have "(x / ulp x - of_int (round_half_even (x / ulp x))) * ulp x \<le> (1 / 2) * ulp x"
    using rhe_lower[of "x / ulp x"] ulp_pos[of x] by (simp only: mult_le_cancel_right_pos)
  moreover have "(x / ulp x - of_int (round_half_even (x / ulp x))) * ulp x
      = x - of_int (round_half_even (x / ulp x)) * ulp x"
    using ulp_pos[of x] by (simp add: left_diff_distrib)
  ultimately show ?thesis using pos by (simp add: to_double_def)
qed

lemma ulp_le_binade16:
  assumes "0 < x" and "x < 2 ^ 17"
  shows "ulp x \<le> 1 / 2 ^ 36"
proof -
  have "ilog2 x < int 17" using assms by (rule ilog2_less)
  then have "max (ilog2 x) (- 1022) - 52 \<le> - 36" by simp
  then have "pow2 (max (ilog2 x) (- 1022) - 52) \<le> pow2 (- 36)" by (rule pow2_mono)
  then show ?thesis using assms(1) by (simp add: ulp_def pow2_def)
qed

lemma to_double_error:
  assumes "0 \<le> x" and "x < 2 ^ 17"
  shows "\<bar>to_double x - x\<bar> \<le> 1 / 2 ^ 37"
proof (cases "x = 0")
  case True
  then show ?thesis by (simp add: to_double_def)
next
  case False
  then have pos: "0 < x" using assms(1) by simp
  define h where "h = ulp x / 2"
  define t where "t = to_double x"
  define c :: rat where "c = 1 / 2 ^ 37"
  have "h \<le> c" using ulp_le_binade16[OF pos assms(2)] by (simp add: h_def c_def)
  moreover have "t \<le> x + h" unfolding t_def h_def using pos by (rule to_double_upper)
  moreover have "x - h \<le> t" unfolding t_def h_def using pos by (rule to_double_lower)
  ultimately have "\<bar>t - x\<bar> \<le> c" by linarith
  then show ?thesis unfolding t_def c_def .
qed

text \<open>The exact product of a draw and the scale, and the coordinate computed from it.\<close>

lemma coordinate_of_product:
  "coordinate_of MAX_COORDINATE k = to_double (of_int (uint k) * 100000 / 2 ^ 53)"
  by (simp add: coordinate_of_def fmul_def to_double_MAX uniform_of_def) (simp add: MAX_COORDINATE_def)

lemma product_bounds: "0 \<le> of_int (uint k) * 100000 / (2 ^ 53 :: rat)"
  "of_int (uint (k :: 53 word)) * 100000 / (2 ^ 53 :: rat) < 2 ^ 17"
proof -
  have nn: "(0::rat) \<le> of_int (uint k)" by (simp only: of_int_0_le_iff uint_ge_0)
  then show "0 \<le> of_int (uint k) * 100000 / (2 ^ 53 :: rat)" by simp
  have "uint k < 2 ^ 53" using uint_lt2p[of k] by simp
  then have "(of_int (uint k) :: rat) < of_int (2 ^ 53)" by (simp only: of_int_less_iff)
  then show "of_int (uint k) * 100000 / (2 ^ 53 :: rat) < 2 ^ 17" by simp
qed

lemma coordinate_of_error:
  "\<bar>coordinate_of MAX_COORDINATE k - uniform_of k * of_int MAX_COORDINATE\<bar> \<le> 1 / 2 ^ 37"
proof -
  define p :: rat where "p = of_int (uint k) * 100000 / 2 ^ 53"
  have 1: "uniform_of k * of_int MAX_COORDINATE = p"
    by (simp add: uniform_of_def MAX_COORDINATE_def p_def)
  have 2: "coordinate_of MAX_COORDINATE k = to_double p"
    unfolding p_def by (rule coordinate_of_product)
  have "\<bar>to_double p - p\<bar> \<le> 1 / 2 ^ 37"
    unfolding p_def by (rule to_double_error) (rule product_bounds)+
  then show ?thesis unfolding 1 2 .
qed

lemma round4_at_first_max_draw:
  "round4 (of_int (round_half_even (9007199250237393 * 100000 / 2 ^ 53 * 2 ^ 36)) / 2 ^ 36) = 100000"
  by code_simp

lemma round4_below_first_max_draw:
  "round4 (of_int (round_half_even (9007199250237392 * 100000 / 2 ^ 53 * 2 ^ 36)) / 2 ^ 36)
     = 999999999 / 10000"
  by code_simp

lemma written_max_iff:
  "(round4 (coordinate_of MAX_COORDINATE k) = of_int MAX_COORDINATE) = (first_max_draw \<le> uint k)"
proof -
  define x :: rat where "x = of_int (uint k) * 100000 / 2 ^ 53"
  have c: "coordinate_of MAX_COORDINATE k = to_double x"
    unfolding x_def by (rule coordinate_of_product)
  have x17: "x < 2 ^ 17" and x0: "0 \<le> x" unfolding x_def by (rule product_bounds)+
  have le: "round4 (to_double x) \<le> 100000"
  proof -
    have "to_double x \<le> of_int MAX_COORDINATE"
      using coordinate_of_less[of k] unfolding c by simp
    then have "round4 (to_double x) \<le> of_int MAX_COORDINATE" by (rule round4_le_int)
    then show ?thesis by (simp add: MAX_COORDINATE_def)
  qed
  show ?thesis
  proof (cases "first_max_draw \<le> uint k")
    case True
    then have "(of_int 9007199250237393 :: rat) \<le> of_int (uint k)"
      unfolding first_max_draw_def by (simp only: of_int_le_iff)
    then have x1: "9007199250237393 * 100000 / 2 ^ 53 \<le> x" by (simp add: x_def)
    then have "2 ^ 16 \<le> x" by simp
    then have "to_double x = of_int (round_half_even (x * 2 ^ 36)) / 2 ^ 36"
      using x17 by (rule to_double_binade16)
    moreover have "round_half_even (9007199250237393 * 100000 / 2 ^ 53 * 2 ^ 36)
        \<le> round_half_even (x * 2 ^ 36)"
      using x1 by (intro rhe_mono) simp
    then have "(of_int (round_half_even (9007199250237393 * 100000 / 2 ^ 53 * 2 ^ 36)) :: rat) / 2 ^ 36
        \<le> of_int (round_half_even (x * 2 ^ 36)) / 2 ^ 36"
      by (simp only: of_int_le_iff divide_right_mono zero_le_numeral zero_le_power)
    ultimately have "round4 (of_int (round_half_even (9007199250237393 * 100000 / 2 ^ 53 * 2 ^ 36)) / 2 ^ 36)
        \<le> round4 (to_double x)"
      by (simp only: round4_mono)
    then have "100000 \<le> round4 (to_double x)" unfolding round4_at_first_max_draw .
    with le True show ?thesis unfolding c by (simp add: MAX_COORDINATE_def)
  next
    case False
    then have "uint k \<le> 9007199250237392" unfolding first_max_draw_def by simp
    then have "(of_int (uint k) :: rat) \<le> of_int 9007199250237392" by (simp only: of_int_le_iff)
    then have x1: "x \<le> 9007199250237392 * 100000 / 2 ^ 53" by (simp add: x_def)
    have "round4 (to_double x) \<le> 999999999 / 10000"
    proof (cases "2 ^ 16 \<le> x")
      case True
      then have "to_double x = of_int (round_half_even (x * 2 ^ 36)) / 2 ^ 36"
        using x17 by (rule to_double_binade16)
      moreover have "round_half_even (x * 2 ^ 36)
          \<le> round_half_even (9007199250237392 * 100000 / 2 ^ 53 * 2 ^ 36)"
        using x1 by (intro rhe_mono) simp
      then have "(of_int (round_half_even (x * 2 ^ 36)) :: rat) / 2 ^ 36
          \<le> of_int (round_half_even (9007199250237392 * 100000 / 2 ^ 53 * 2 ^ 36)) / 2 ^ 36"
        by (simp only: of_int_le_iff divide_right_mono zero_le_numeral zero_le_power)
      ultimately have "round4 (to_double x)
          \<le> round4 (of_int (round_half_even (9007199250237392 * 100000 / 2 ^ 53 * 2 ^ 36)) / 2 ^ 36)"
        by (simp only: round4_mono)
      then show ?thesis unfolding round4_below_first_max_draw .
    next
      case False
      then have "x \<le> of_int 65536" by simp
      with x0 have "to_double x \<le> of_int 65536" by (rule to_double_le_int) simp
      then have "round4 (to_double x) \<le> of_int 65536" by (rule round4_le_int)
      then show ?thesis by simp
    qed
    then have "round4 (to_double x) \<noteq> 100000" by simp
    with False show ?thesis unfolding c by (simp add: MAX_COORDINATE_def)
  qed
qed

lemma written_below_max:
  "uint k < first_max_draw \<Longrightarrow> round4 (coordinate_of MAX_COORDINATE k) < of_int MAX_COORDINATE"
proof -
  assume "uint k < first_max_draw"
  then have "round4 (coordinate_of MAX_COORDINATE k) \<noteq> of_int MAX_COORDINATE"
    by (simp add: written_max_iff)
  moreover have "round4 (coordinate_of MAX_COORDINATE k) \<le> of_int MAX_COORDINATE"
    using coordinate_of_less[of k] by (intro round4_le_int) simp
  ultimately show ?thesis by simp
qed

section \<open>Text\<close>

subsection \<open>Decimal digits\<close>

lemma last_digit_cases:
  fixes r :: int
  assumes "0 \<le> r" and "r < 10"
  shows "r = 0 \<or> r = 1 \<or> r = 2 \<or> r = 3 \<or> r = 4 \<or> r = 5 \<or> r = 6 \<or> r = 7 \<or> r = 8 \<or> r = 9"
  using assms by arith

lemma digit_val_digit_char: "digit_val (digit_char d) = Some (d mod 10)"
proof -
  define r where "r = d mod 10"
  have "0 \<le> r" "r < 10" by (simp_all add: r_def)
  then have "r = 0 \<or> r = 1 \<or> r = 2 \<or> r = 3 \<or> r = 4 \<or> r = 5 \<or> r = 6 \<or> r = 7 \<or> r = 8 \<or> r = 9"
    by (rule last_digit_cases)
  then have "digit_val (''0123456789'' ! nat r) = Some r"
    by (elim disjE) (simp_all add: digit_val_def)
  then show ?thesis by (simp add: digit_char_def r_def)
qed

lemma is_digit_digit_char: "is_digit (digit_char d)"
  by (simp add: is_digit_def digit_val_digit_char)

lemma is_digit_not_sep:
  "is_digit c \<Longrightarrow> c \<noteq> CHR ''.'' \<and> c \<noteq> CHR '' '' \<and> c \<noteq> CHR 0x0A \<and> c \<noteq> CHR ''-''"
  by (auto simp: is_digit_def digit_val_def)

lemma str_digits_is_digit: "list_all is_digit (str_digits n)"
  by (induction n rule: str_digits.induct)
     (subst str_digits.simps, simp add: is_digit_digit_char)

lemma str_digits_nonempty: "str_digits n \<noteq> []"
  by (subst str_digits.simps) simp

lemma frac4_is_digit: "list_all is_digit (frac4 m)"
  by (simp add: frac4_def is_digit_digit_char)

lemma length_frac4: "length (frac4 m) = 4"
  by (simp add: frac4_def)

lemma digits_acc_append:
  "digits_acc a (s @ t) = (case digits_acc a s of None \<Rightarrow> None | Some b \<Rightarrow> digits_acc b t)"
  by (induction s arbitrary: a) (simp_all split: option.splits)

lemma digits_acc_str_digits: "0 \<le> n \<Longrightarrow> digits_acc 0 (str_digits n) = Some n"
proof (induction n rule: str_digits.induct)
  case (1 n)
  show ?case
  proof (cases "n < 10")
    case True
    with 1(2) show ?thesis
      by (subst str_digits.simps) (simp add: digit_val_digit_char)
  next
    case False
    then have "digits_acc 0 (str_digits (n div 10)) = Some (n div 10)"
      using 1 by simp
    with False show ?thesis
      by (subst str_digits.simps) (simp add: digits_acc_append digit_val_digit_char)
  qed
qed

lemma digits_val_str_digits: "0 \<le> n \<Longrightarrow> digits_val (str_digits n) = Some n"
  by (simp add: digits_val_def str_digits_nonempty digits_acc_str_digits)

lemma digits_val_frac4: "0 \<le> m \<Longrightarrow> m < 10000 \<Longrightarrow> digits_val (frac4 m) = Some m"
proof -
  assume m: "0 \<le> m" "m < 10000"
  define q1 where "q1 = m div 10"
  define q2 where "q2 = q1 div 10"
  define q3 where "q3 = q2 div 10"
  have d2: "m div 100 = q2" and d3: "m div 1000 = q3"
    unfolding q3_def q2_def q1_def by (simp_all add: div_mult2_eq[symmetric])
  have "q3 < 10" using m unfolding d3[symmetric] by simp
  moreover have "0 \<le> q3" using m unfolding d3[symmetric] by simp
  ultimately have e3: "q3 mod 10 = q3" by simp
  define r0 where "r0 = m mod 10"
  define r1 where "r1 = q1 mod 10"
  define r2 where "r2 = q2 mod 10"
  have e0: "m = 10 * q1 + r0" unfolding q1_def r0_def by simp
  have e1: "q1 = 10 * q2 + r1" unfolding q2_def r1_def by simp
  have e2: "q2 = 10 * q3 + r2" unfolding q3_def r2_def by simp
  have "10 * (10 * (10 * q3 + r2) + r1) + r0 = m"
    using e0 e1 e2 by simp
  then have "10 * (10 * (10 * (q3 mod 10) + q2 mod 10) + q1 mod 10) + m mod 10 = m"
    unfolding e3 r0_def r1_def r2_def .
  then show ?thesis
    by (simp add: digits_val_def frac4_def digit_val_digit_char d2 d3 q1_def[symmetric])
qed

subsection \<open>Fixed-point fields, rows and lines\<close>

lemma split_on_neq_Nil: "split_on d s \<noteq> []"
  by (induction s) (auto split: list.splits)

lemma split_on_notin: "d \<notin> set a \<Longrightarrow> split_on d a = [a]"
  by (induction a) auto

lemma split_on_append: "d \<notin> set a \<Longrightarrow> split_on d (a @ d # rest) = a # split_on d rest"
  by (induction a) auto

lemma digits_no_sep:
  assumes "list_all is_digit s"
  shows "CHR ''.'' \<notin> set s" and "CHR '' '' \<notin> set s" and "CHR 0x0A \<notin> set s"
  using assms is_digit_not_sep by (auto simp: list_all_iff)

lemma scaled_nonneg: "0 \<le> x \<Longrightarrow> 0 \<le> scaled x"
proof -
  assume "0 \<le> x"
  then have "of_int 0 \<le> x * 10000" by simp
  then show ?thesis unfolding scaled_def by (rule rhe_ge)
qed

lemma format_4f_nonneg:
  "0 \<le> x \<Longrightarrow> format_4f x = str_digits (scaled x div 10000) @ CHR ''.'' # frac4 (scaled x mod 10000)"
  by (simp add: format_4f_def Let_def scaled_def)

lemma split_format_4f:
  "0 \<le> x \<Longrightarrow> split_on CHR ''.'' (format_4f x)
     = [str_digits (scaled x div 10000), frac4 (scaled x mod 10000)]"
  by (simp add: format_4f_nonneg split_on_append split_on_notin
        digits_no_sep(1)[OF str_digits_is_digit] digits_no_sep(1)[OF frac4_is_digit])

lemma is_fixed4_format_4f: "0 \<le> x \<Longrightarrow> is_fixed4 (format_4f x)"
  by (simp add: is_fixed4_def split_format_4f str_digits_nonempty str_digits_is_digit
        frac4_is_digit length_frac4)

lemma parse_format_4f: "0 \<le> x \<Longrightarrow> parse_4f (format_4f x) = Some (round4 x)"
proof -
  assume x: "0 \<le> x"
  define n where "n = scaled x"
  have n: "0 \<le> n" unfolding n_def using x by (rule scaled_nonneg)
  then have q: "0 \<le> n div 10000" by simp
  have r: "0 \<le> n mod 10000" "n mod 10000 < 10000" by simp_all
  have "n div 10000 * 10000 + n mod 10000 = n" by simp
  then have "(of_int (n div 10000 * 10000 + n mod 10000) :: rat) = of_int n" by (simp only:)
  then have "(of_int (n div 10000) :: rat) * 10000 + of_int (n mod 10000) = of_int n"
    by (simp only: of_int_add of_int_mult of_int_numeral)
  then have "(of_int (n div 10000) :: rat) + of_int (n mod 10000) / 10000 = of_int n / 10000"
    by (simp add: field_simps)
  then have v: "(of_int (n div 10000) :: rat) + of_int (n mod 10000) / 10000 = round4 x"
    by (simp add: round4_def n_def scaled_def)
  show ?thesis
    using v
    by (simp add: parse_4f_def split_format_4f[OF x] n_def[symmetric] length_frac4
          digits_val_str_digits[OF q] digits_val_frac4[OF r])
qed

lemma format_4f_chars:
  assumes "0 \<le> x"
  shows "CHR '' '' \<notin> set (format_4f x)" and "CHR 0x0A \<notin> set (format_4f x)"
  using digits_no_sep(2,3)[OF str_digits_is_digit] digits_no_sep(2,3)[OF frac4_is_digit]
  by (simp_all add: format_4f_nonneg[OF assms])

lemma format_row3: "format_row [a, b, c] = format_4f a @ CHR '' '' # format_4f b @ CHR '' '' # format_4f c"
  by (simp add: format_row_def)

lemma split_format_row3:
  assumes "0 \<le> a" "0 \<le> b" "0 \<le> c"
  shows "split_on CHR '' '' (format_row [a, b, c]) = [format_4f a, format_4f b, format_4f c]"
  by (simp add: format_row3 split_on_append split_on_notin
        format_4f_chars(1)[OF assms(1)] format_4f_chars(1)[OF assms(2)] format_4f_chars(1)[OF assms(3)])

lemma format_row3_no_newline:
  assumes "0 \<le> a" "0 \<le> b" "0 \<le> c"
  shows "CHR 0x0A \<notin> set (format_row [a, b, c])"
  by (simp add: format_row3
        format_4f_chars(2)[OF assms(1)] format_4f_chars(2)[OF assms(2)] format_4f_chars(2)[OF assms(3)])

lemma parse_line_format_row3:
  assumes "0 \<le> a" "0 \<le> b" "0 \<le> c"
  shows "parse_line (format_row [a, b, c]) = Some [round4 a, round4 b, round4 c]"
  by (simp add: parse_line_def split_format_row3[OF assms] parse_format_4f assms)

lemma lines_acc_line:
  "CHR 0x0A \<notin> set l \<Longrightarrow>
     lines_acc cur (l @ CHR 0x0A # rest) = map_option ((#) (rev cur @ l)) (lines_acc [] rest)"
  by (induction l arbitrary: cur) auto

lemma lines_of_concat:
  "\<forall>l \<in> set ls. CHR 0x0A \<notin> set l \<Longrightarrow>
     lines_of (concat (map (\<lambda>l. l @ newline) ls)) = Some ls"
  unfolding lines_of_def
  by (induction ls) (simp_all add: newline_def lines_acc_line)

lemma those_map:
  "\<forall>x \<in> set xs. f x = Some (g x) \<Longrightarrow> those (map f xs) = Some (map g xs)"
  by (induction xs) simp_all

subsection \<open>Length of the text\<close>

lemma length_str_digits: "0 < k \<Longrightarrow> n < 10 ^ k \<Longrightarrow> length (str_digits n) \<le> k"
proof (induction k arbitrary: n)
  case 0
  then show ?case by simp
next
  case (Suc k)
  show ?case
  proof (cases "n < 10")
    case True
    then show ?thesis by (subst str_digits.simps) simp
  next
    case False
    then have "0 < k"
      using Suc.prems(2) by (cases k) simp_all
    moreover have "n div 10 < 10 ^ k" using Suc.prems(2) by simp
    ultimately have "length (str_digits (n div 10)) \<le> k" by (rule Suc.IH)
    with False show ?thesis by (subst str_digits.simps) simp
  qed
qed

lemma length_format_4f:
  assumes "0 \<le> x" and "x \<le> 100000"
  shows "length (format_4f x) \<le> 11"
proof -
  have "x * 10000 \<le> of_int 1000000000" using assms(2) by simp
  then have "scaled x \<le> 1000000000" unfolding scaled_def by (rule rhe_le)
  then have "scaled x div 10000 < 10 ^ 6" by simp
  then have "length (str_digits (scaled x div 10000)) \<le> 6"
    by (intro length_str_digits) simp_all
  then show ?thesis by (simp add: format_4f_nonneg[OF assms(1)] length_frac4)
qed

lemma length_point_line:
  "length (format_row (point_of g MAX_COORDINATE i) @ newline) \<le> 36"
proof -
  have "length (format_4f (coordinate_of MAX_COORDINATE k)) \<le> 11" for k
    using coordinate_of_nonneg[of k] coordinate_of_less[of k]
    by (intro length_format_4f) (simp_all add: MAX_COORDINATE_def)
  from this[of "g (3 * i)"] this[of "g (3 * i + 1)"] this[of "g (3 * i + 2)"]
  show ?thesis by (simp add: point_of_def format_row3 newline_def)
qed

lemma length_concat_le:
  "\<forall>x \<in> set xs. length (f x) \<le> b \<Longrightarrow> length (concat (map f xs)) \<le> b * length xs"
  by (induction xs) auto


lemma length_text_le: "length (text_of g MAX_COORDINATE n) \<le> 36 * n"
proof -
  have "length (concat (map (\<lambda>pt. format_row pt @ newline) (points_of g MAX_COORDINATE n)))
      \<le> 36 * length (points_of g MAX_COORDINATE n)"
    using length_point_line[of g] by (intro length_concat_le) (auto simp: points_of_def)
  then show ?thesis by (simp add: text_of_def points_of_def)
qed


section \<open>The run\<close>

subsection \<open>Drawing, writing, and the outcome of the script\<close>

lemma draw_row_eq:
  "draw_row d st =
     (map (\<lambda>j. uniform_of (stream st (pos st + j))) [0..<d], st\<lparr>pos := pos st + d\<rparr>)"
proof (induction d arbitrary: st)
  case 0
  then show ?case by simp
next
  case (Suc d)
  have "map (\<lambda>j. uniform_of (stream st (pos st + j))) [0..<Suc d]
      = uniform_of (stream st (pos st)) # map (\<lambda>j. uniform_of (stream st (Suc (pos st + j)))) [0..<d]"
    by (simp only: map_upt_Suc) simp
  then show ?case
    by (simp add: Suc.IH random_sample_def del: upt_Suc)
qed

lemma rand_eq:
  "rand n d st =
     (map (\<lambda>i. map (\<lambda>j. uniform_of (stream st (pos st + i * d + j))) [0..<d]) [0..<n],
      st\<lparr>pos := pos st + n * d\<rparr>)"
proof (induction n arbitrary: st)
  case 0
  then show ?case by simp
next
  case (Suc n)
  have "map (\<lambda>i. map (\<lambda>j. uniform_of (stream st (pos st + i * d + j))) [0..<d]) [0..<Suc n]
      = map (\<lambda>j. uniform_of (stream st (pos st + j))) [0..<d]
        # map (\<lambda>i. map (\<lambda>j. uniform_of (stream st (pos st + d + i * d + j))) [0..<d]) [0..<n]"
    by (simp only: map_upt_Suc) (simp add: add.assoc add.left_commute)
  then show ?case
    by (simp add: Suc.IH draw_row_eq add.assoc del: upt_Suc)
qed

lemma upt_3: "[0..<3] = [0, 1, 2]"
  by (simp add: upt_rec)

lemma rand_3:
  assumes "rand n 3 \<lparr>stream = g, pos = 0\<rparr> = (U, r)"
  shows "scale U m = points_of g m n" and "r = \<lparr>stream = g, pos = 3 * n\<rparr>"
proof -
  from assms have U: "U = map (\<lambda>i. map (\<lambda>j. uniform_of (g (i * 3 + j))) [0..<3]) [0..<n]"
    and r: "r = \<lparr>stream = g, pos = n * 3\<rparr>"
    by (simp_all add: rand_eq)
  show "scale U m = points_of g m n"
    unfolding U upt_3
    by (simp add: scale_def points_of_def point_of_def coordinate_of_def mult.commute)
  show "r = \<lparr>stream = g, pos = 3 * n\<rparr>"
    unfolding r by (simp add: mult.commute)
qed

lemma write_rows_eq:
  "fs p = Some (File fw c) \<Longrightarrow>
     write_rows p rows (fs, k) =
       (let t = concat (map (\<lambda>r. format_row r @ newline) rows)
        in if length t \<le> k then (None, fs(p \<mapsto> File fw (c @ t)), k - length t)
           else (Some NoSpaceError, fs(p \<mapsto> File fw (c @ take k t)), 0))"
proof (induction rows arbitrary: fs c k)
  case Nil
  then show ?case by (simp add: fun_upd_idem)
next
  case (Cons r rows)
  define v where "v = format_row r @ newline"
  define t where "t = concat (map (\<lambda>r. format_row r @ newline) rows)"
  have whole: "concat (map (\<lambda>r. format_row r @ newline) (r # rows)) = v @ t"
    by (simp add: v_def t_def)
  show ?case
  proof (cases "length v \<le> k")
    case True
    define fs' where "fs' = fs(p \<mapsto> File fw (c @ v))"
    have step: "write_str p v (fs, k) = (None, fs', k - length v)"
      using Cons.prems True by (simp add: write_str_def fs'_def)
    have "fs' p = Some (File fw (c @ v))" by (simp add: fs'_def)
    from Cons.IH[of fs' "c @ v" "k - length v", OF this]
    have rest: "write_rows p rows (fs', k - length v) =
        (if length t \<le> k - length v
         then (None, fs'(p \<mapsto> File fw ((c @ v) @ t)), k - length v - length t)
         else (Some NoSpaceError, fs'(p \<mapsto> File fw ((c @ v) @ take (k - length v) t)), 0))"
      by (simp add: t_def Let_def)
    have upd: "fs'(p \<mapsto> x) = fs(p \<mapsto> x)" for x
      unfolding fs'_def by (simp only: fun_upd_upd)
    have "write_rows p (r # rows) (fs, k) = write_rows p rows (fs', k - length v)"
      using step by (simp add: v_def)
    also have "\<dots> =
        (if length (v @ t) \<le> k then (None, fs(p \<mapsto> File fw (c @ v @ t)), k - length (v @ t))
         else (Some NoSpaceError, fs(p \<mapsto> File fw (c @ take k (v @ t))), 0))"
      using True unfolding rest upd by auto
    finally show ?thesis unfolding whole Let_def .
  next
    case False
    then have "write_str p v (fs, k) = (Some NoSpaceError, fs(p \<mapsto> File fw (c @ take k v)), 0)"
      using Cons.prems by (simp add: write_str_def)
    then have "write_rows p (r # rows) (fs, k)
        = (Some NoSpaceError, fs(p \<mapsto> File fw (c @ take k v)), 0)"
      by (simp add: v_def)
    also have "\<dots> =
        (if length (v @ t) \<le> k then (None, fs(p \<mapsto> File fw (c @ v @ t)), k - length (v @ t))
         else (Some NoSpaceError, fs(p \<mapsto> File fw (c @ take k (v @ t))), 0))"
      using False by simp
    finally show ?thesis unfolding whole Let_def .
  qed
qed

lemma open_w_Inr: "open_w p fs = Inr fs1 \<Longrightarrow> \<exists>fw. fs1 = fs(p \<mapsto> File fw [])"
  by (auto simp: open_w_def split: option.splits node.splits if_splits)

lemma savetxt_Inl: "open_w p fs = Inl e \<Longrightarrow> savetxt p X (fs, k) = (Some e, fs, k)"
  by (simp add: savetxt_def)

lemma savetxt_Inr:
  assumes "open_w p fs = Inr fs1"
  shows "\<exists>fw. savetxt p X (fs, k) =
     (let t = concat (map (\<lambda>r. format_row r @ newline) X); k1 = k + truncated p fs
      in if length t \<le> k1 then (None, fs(p \<mapsto> File fw t), k1 - length t)
         else (Some NoSpaceError, fs(p \<mapsto> File fw (take k1 t)), 0))"
proof -
  from open_w_Inr[OF assms] obtain fw where fs1: "fs1 = fs(p \<mapsto> File fw [])" by blast
  then have "fs1 p = Some (File fw [])" by simp
  from write_rows_eq[of fs1 p fw "[]" X "k + truncated p fs", OF this]
  have "savetxt p X (fs, k) =
     (let t = concat (map (\<lambda>r. format_row r @ newline) X); k1 = k + truncated p fs
      in if length t \<le> k1 then (None, fs(p \<mapsto> File fw t), k1 - length t)
         else (Some NoSpaceError, fs(p \<mapsto> File fw (take k1 t)), 0))"
    using assms by (simp add: savetxt_def fs1 Let_def)
  then show ?thesis by blast
qed

lemma generate_points_fail:
  assumes "open_w p (files w) = Inl e"
  shows "generate_points gen s m n p w = (Uncaught e, w\<lparr>rng := \<lparr>stream = gen s, pos = 3 * n\<rparr>\<rparr>)"
proof -
  obtain U r where ur: "rand n 3 \<lparr>stream = gen s, pos = 0\<rparr> = (U, r)"
    by (cases "rand n 3 \<lparr>stream = gen s, pos = 0\<rparr>")
  show ?thesis
    by (simp add: generate_points_def seed_def ur rand_3(2)[OF ur] savetxt_Inl[OF assms])
qed

lemma generate_points_opened:
  assumes "open_w p (files w) = Inr fs1"
  shows "\<exists>fw. generate_points gen s m n p w =
     (if length (text_of (gen s) m n) \<le> free w + truncated p (files w)
      then (Exit0, \<lparr>rng = \<lparr>stream = gen s, pos = 3 * n\<rparr>,
                    files = (files w)(p \<mapsto> File fw (text_of (gen s) m n)),
                    free = free w + truncated p (files w) - length (text_of (gen s) m n),
                    stdout = stdout w @ confirmation n p\<rparr>)
      else (Uncaught NoSpaceError,
            \<lparr>rng = \<lparr>stream = gen s, pos = 3 * n\<rparr>,
             files = (files w)(p \<mapsto>
                       File fw (take (free w + truncated p (files w)) (text_of (gen s) m n))),
             free = 0,
             stdout = stdout w\<rparr>))"
proof -
  obtain U r where ur: "rand n 3 \<lparr>stream = gen s, pos = 0\<rparr> = (U, r)"
    by (cases "rand n 3 \<lparr>stream = gen s, pos = 0\<rparr>")
  from savetxt_Inr[OF assms, of "points_of (gen s) m n" "free w"] obtain fw where
    raw: "savetxt p (points_of (gen s) m n) (files w, free w) =
     (let t = concat (map (\<lambda>r. format_row r @ newline) (points_of (gen s) m n));
          k1 = free w + truncated p (files w)
      in if length t \<le> k1 then (None, (files w)(p \<mapsto> File fw t), k1 - length t)
         else (Some NoSpaceError, (files w)(p \<mapsto> File fw (take k1 t)), 0))"
    by blast
  have sv: "savetxt p (points_of (gen s) m n) (files w, free w) =
      (if length (text_of (gen s) m n) \<le> free w + truncated p (files w)
       then (None, (files w)(p \<mapsto> File fw (text_of (gen s) m n)),
             free w + truncated p (files w) - length (text_of (gen s) m n))
       else (Some NoSpaceError,
             (files w)(p \<mapsto> File fw (take (free w + truncated p (files w)) (text_of (gen s) m n))),
             0))"
    unfolding raw by (simp add: text_of_def Let_def)
  have "generate_points gen s m n p w =
     (if length (text_of (gen s) m n) \<le> free w + truncated p (files w)
      then (Exit0, \<lparr>rng = \<lparr>stream = gen s, pos = 3 * n\<rparr>,
                    files = (files w)(p \<mapsto> File fw (text_of (gen s) m n)),
                    free = free w + truncated p (files w) - length (text_of (gen s) m n),
                    stdout = stdout w @ confirmation n p\<rparr>)
      else (Uncaught NoSpaceError,
            \<lparr>rng = \<lparr>stream = gen s, pos = 3 * n\<rparr>,
             files = (files w)(p \<mapsto>
                       File fw (take (free w + truncated p (files w)) (text_of (gen s) m n))),
             free = 0,
             stdout = stdout w\<rparr>))"
    by (simp add: generate_points_def seed_def ur rand_3[OF ur] sv print_def confirmation_def)
  then show ?thesis by blast
qed

lemma generate_points_exit:
  "fst (generate_points gen s m n p w) =
     (case open_w p (files w) of
        Inl e \<Rightarrow> Uncaught e
      | Inr fs1 \<Rightarrow>
          if length (text_of (gen s) m n) \<le> free w + truncated p (files w) then Exit0
          else Uncaught NoSpaceError)"
proof (cases "open_w p (files w)")
  case (Inl e)
  then show ?thesis by (simp add: generate_points_fail)
next
  case (Inr fs1)
  from generate_points_opened[OF this, of gen s m n] obtain fw where
    "generate_points gen s m n p w =
     (if length (text_of (gen s) m n) \<le> free w + truncated p (files w)
      then (Exit0, \<lparr>rng = \<lparr>stream = gen s, pos = 3 * n\<rparr>,
                    files = (files w)(p \<mapsto> File fw (text_of (gen s) m n)),
                    free = free w + truncated p (files w) - length (text_of (gen s) m n),
                    stdout = stdout w @ confirmation n p\<rparr>)
      else (Uncaught NoSpaceError,
            \<lparr>rng = \<lparr>stream = gen s, pos = 3 * n\<rparr>,
             files = (files w)(p \<mapsto>
                       File fw (take (free w + truncated p (files w)) (text_of (gen s) m n))),
             free = 0,
             stdout = stdout w\<rparr>))" by blast
  then show ?thesis using Inr by simp
qed

subsection \<open>The output text\<close>

lemma run_ok:
  assumes "fst (generate_points gen s m n p w) = Exit0"
  shows "output_of (generate_points gen s m n p w) p = Some (text_of (gen s) m n)"
    and "stdout (snd (generate_points gen s m n p w)) = stdout w @ confirmation n p"
    and "rng (snd (generate_points gen s m n p w)) = \<lparr>stream = gen s, pos = 3 * n\<rparr>"
proof -
  from assms obtain fs1 where o: "open_w p (files w) = Inr fs1"
    and room: "length (text_of (gen s) m n) \<le> free w + truncated p (files w)"
    by (auto simp: generate_points_exit split: sum.splits if_splits)
  from generate_points_opened[OF o, of gen s m n] room obtain fw where
    r: "generate_points gen s m n p w =
     (Exit0, \<lparr>rng = \<lparr>stream = gen s, pos = 3 * n\<rparr>,
              files = (files w)(p \<mapsto> File fw (text_of (gen s) m n)),
              free = free w + truncated p (files w) - length (text_of (gen s) m n),
              stdout = stdout w @ confirmation n p\<rparr>)" by auto
  show "output_of (generate_points gen s m n p w) p = Some (text_of (gen s) m n)"
    by (simp add: r output_of_def read_file_def)
  show "stdout (snd (generate_points gen s m n p w)) = stdout w @ confirmation n p"
    by (simp add: r)
  show "rng (snd (generate_points gen s m n p w)) = \<lparr>stream = gen s, pos = 3 * n\<rparr>"
    by (simp add: r)
qed

lemma run_fail:
  assumes "fst (generate_points gen s m n p w) = Uncaught e"
  shows "stdout (snd (generate_points gen s m n p w)) = stdout w"
    and "rng (snd (generate_points gen s m n p w)) = \<lparr>stream = gen s, pos = 3 * n\<rparr>"
proof -
  have "stdout (snd (generate_points gen s m n p w)) = stdout w
      \<and> rng (snd (generate_points gen s m n p w)) = \<lparr>stream = gen s, pos = 3 * n\<rparr>"
  proof (cases "open_w p (files w)")
    case (Inl e')
    then show ?thesis by (simp add: generate_points_fail)
  next
    case (Inr fs1)
    with assms have full: "\<not> length (text_of (gen s) m n) \<le> free w + truncated p (files w)"
      by (auto simp: generate_points_exit split: if_splits)
    from generate_points_opened[OF Inr, of gen s m n] full obtain fw where
      "generate_points gen s m n p w =
        (Uncaught NoSpaceError,
         \<lparr>rng = \<lparr>stream = gen s, pos = 3 * n\<rparr>,
          files = (files w)(p \<mapsto>
                    File fw (take (free w + truncated p (files w)) (text_of (gen s) m n))),
          free = 0,
          stdout = stdout w\<rparr>)" by auto
    then show ?thesis by simp
  qed
  then show "stdout (snd (generate_points gen s m n p w)) = stdout w"
    and "rng (snd (generate_points gen s m n p w)) = \<lparr>stream = gen s, pos = 3 * n\<rparr>"
    by simp_all
qed

lemma run_full:
  assumes "open_w p (files w) = Inr fs1"
    and "free w + truncated p (files w) < length (text_of (gen s) m n)"
  shows "fst (generate_points gen s m n p w) = Uncaught NoSpaceError"
    and "output_of (generate_points gen s m n p w) p
           = Some (take (free w + truncated p (files w)) (text_of (gen s) m n))"
proof -
  from assms(2) have full: "\<not> length (text_of (gen s) m n) \<le> free w + truncated p (files w)"
    by simp
  from generate_points_opened[OF assms(1), of gen s m n] full obtain fw where
    r: "generate_points gen s m n p w =
        (Uncaught NoSpaceError,
         \<lparr>rng = \<lparr>stream = gen s, pos = 3 * n\<rparr>,
          files = (files w)(p \<mapsto>
                    File fw (take (free w + truncated p (files w)) (text_of (gen s) m n))),
          free = 0,
          stdout = stdout w\<rparr>)" by auto
  show "fst (generate_points gen s m n p w) = Uncaught NoSpaceError" by (simp add: r)
  show "output_of (generate_points gen s m n p w) p
           = Some (take (free w + truncated p (files w)) (text_of (gen s) m n))"
    by (simp add: r output_of_def read_file_def)
qed

lemma point_of_nonneg: "v \<in> set (point_of g MAX_COORDINATE i) \<Longrightarrow> 0 \<le> v"
  by (auto simp: point_of_def coordinate_of_nonneg)

lemma point_of_less: "v \<in> set (point_of g MAX_COORDINATE i) \<Longrightarrow> v < of_int MAX_COORDINATE"
  by (auto simp: point_of_def coordinate_of_less)

lemma point_line_no_newline: "CHR 0x0A \<notin> set (format_row (point_of g MAX_COORDINATE i))"
  unfolding point_of_def by (rule format_row3_no_newline) (rule coordinate_of_nonneg)+

lemma lines_of_text:
  "lines_of (text_of g MAX_COORDINATE n) = Some (map format_row (points_of g MAX_COORDINATE n))"
proof -
  have "text_of g MAX_COORDINATE n
      = concat (map (\<lambda>l. l @ newline) (map format_row (points_of g MAX_COORDINATE n)))"
    by (simp add: text_of_def comp_def)
  moreover have "\<forall>l \<in> set (map format_row (points_of g MAX_COORDINATE n)). CHR 0x0A \<notin> set l"
    by (auto simp: points_of_def point_line_no_newline)
  ultimately show ?thesis by (simp only: lines_of_concat)
qed

lemma parse_line_point:
  "parse_line (format_row (point_of g MAX_COORDINATE i)) = Some (map round4 (point_of g MAX_COORDINATE i))"
  unfolding point_of_def
  by (simp add: parse_line_format_row3 coordinate_of_nonneg)

lemma parse_text_text:
  "parse_text (text_of g MAX_COORDINATE n) = Some (map (map round4) (points_of g MAX_COORDINATE n))"
proof -
  have "those (map parse_line (map format_row (points_of g MAX_COORDINATE n)))
      = Some (map (map round4) (points_of g MAX_COORDINATE n))"
    unfolding map_map
    by (rule those_map) (auto simp: points_of_def parse_line_point)
  then show ?thesis by (simp add: parse_text_def lines_of_text)
qed

lemma point_of_nth: "j < 3 \<Longrightarrow> point_of g m i ! j = coordinate_of m (g (3 * i + j))"
proof -
  assume "j < 3"
  then have "j = 0 \<or> j = 1 \<or> j = 2" by arith
  then show ?thesis by (elim disjE) (simp_all add: point_of_def)
qed

lemma length_point_of: "length (point_of g m i) = 3"
  by (simp add: point_of_def)

lemma length_points_of: "length (points_of g m n) = n"
  by (simp add: points_of_def)

lemma points_of_cong: "\<forall>i<3 * n. g' i = g i \<Longrightarrow> points_of g' m n = points_of g m n"
  by (simp add: points_of_def point_of_def)

section \<open>Properties of the generator\<close>

subsection \<open>The sample worlds\<close>

lemma dirname_FILE_PATH: "dirname FILE_PATH = ''./data''"
  by (simp add: dirname_def FILE_PATH_def)

lemma open_demo: "open_w FILE_PATH (files demo_world) = Inr ((files demo_world)(FILE_PATH \<mapsto> File True []))"
  by (simp add: open_w_def dirname_FILE_PATH) (simp add: FILE_PATH_def demo_world_def)

lemma open_stale: "open_w FILE_PATH (files stale_world) = Inr ((files stale_world)(FILE_PATH \<mapsto> File True []))"
  by (simp add: open_w_def dirname_FILE_PATH) (simp add: FILE_PATH_def stale_world_def)

lemma open_full: "open_w FILE_PATH (files full_world) = Inr ((files full_world)(FILE_PATH \<mapsto> File True []))"
  by (simp add: open_w_def dirname_FILE_PATH) (simp add: FILE_PATH_def full_world_def)

lemma open_bare: "open_w FILE_PATH (files bare_world) = Inl FileNotFoundError"
  by (simp add: open_w_def dirname_FILE_PATH) (simp add: FILE_PATH_def bare_world_def)



lemma room_demo: "free demo_world + truncated FILE_PATH (files demo_world) = 1000000000"
  by (simp add: truncated_def demo_world_def FILE_PATH_def)

lemma room_stale: "free stale_world + truncated FILE_PATH (files stale_world) = 1000000013"
  by (simp add: truncated_def stale_world_def FILE_PATH_def)


lemma room_full: "free full_world + truncated FILE_PATH (files full_world) = 40"
  by (simp add: truncated_def full_world_def FILE_PATH_def)

lemma text_fits: "n \<le> 100000 \<Longrightarrow> length (text_of g MAX_COORDINATE n) \<le> 1000000000"
  using length_text_le[of g n] by simp

lemma exit_demo:
  "n \<le> 100000 \<Longrightarrow> fst (generate_points gen s MAX_COORDINATE n FILE_PATH demo_world) = Exit0"
  using text_fits[of n "gen s"] by (simp add: generate_points_exit open_demo room_demo)

lemma exit_stale:
  "n \<le> 100000 \<Longrightarrow> fst (generate_points gen s MAX_COORDINATE n FILE_PATH stale_world) = Exit0"
  using text_fits[of n "gen s"] by (simp add: generate_points_exit open_stale room_stale)


lemma exit_bare: "fst (generate_points gen s m n FILE_PATH bare_world) = Uncaught FileNotFoundError"
  by (simp add: generate_points_exit open_bare)



text \<open>The text of two points drawn from \<open>demo_source\<close>, computed.\<close>

lemma demo_text:
  "text_of (demo_source SEED) MAX_COORDINATE 2 =
     ''13706.4570 27412.9139 41119.3709'' @ newline @ ''54825.8279 68532.2849 82238.7418'' @ newline"
  by code_simp

lemma demo_draws_below: "\<forall>i<3 * 2. uint (demo_source SEED i) < first_max_draw"
proof (intro allI impI)
  fix i :: nat assume "i < 3 * 2"
  then have "i = 0 \<or> i = 1 \<or> i = 2 \<or> i = 3 \<or> i = 4 \<or> i = 5" by arith
  then show "uint (demo_source SEED i) < first_max_draw"
    by (elim disjE) (simp_all add: demo_source_def first_max_draw_def)
qed

subsection \<open>Range of the written coordinates\<close>

lemma written_rows:
  assumes "fst (generate_points gen s MAX_COORDINATE n p w) = Exit0"
  shows "parsed_output (generate_points gen s MAX_COORDINATE n p w) p
           = Some (map (map round4) (points_of (gen s) MAX_COORDINATE n))"
  by (simp add: parsed_output_def run_ok(1)[OF assms] parse_text_text)

lemma written_row_nth:
  assumes "i < n" and "j < 3"
  shows "map (map round4) (points_of g m n) ! i ! j = round4 (coordinate_of m (g (3 * i + j)))"
  using assms by (simp add: points_of_def length_point_of point_of_nth)

text \<open>
  Claim C1, as the code has it. After a successful run every line of the output file
  reads back as coordinates, each at least \<open>0\<close> and at most \<open>MAX_COORDINATE\<close>; the
  binary64 coordinates they were formatted from are at least \<open>0\<close> and strictly below
  \<open>MAX_COORDINATE\<close>. A written coordinate equals \<open>MAX_COORDINATE\<close> exactly when its draw
  \<open>k / 2\<^sup>5\<^sup>3\<close> has \<open>k \<ge> 9007199250237393\<close>; when every draw that is used is below that,
  every written coordinate is strictly below \<open>MAX_COORDINATE\<close>.
\<close>

theorem written_coordinates_closed_range:
  assumes "fst (generate_points gen s MAX_COORDINATE n p w) = Exit0"
  shows "\<exists>rows. parsed_output (generate_points gen s MAX_COORDINATE n p w) p = Some rows
           \<and> length rows = n
           \<and> (\<forall>row \<in> set rows. \<forall>c \<in> set row. 0 \<le> c \<and> c \<le> of_int MAX_COORDINATE)
           \<and> (\<forall>pt \<in> set (points_of (gen s) MAX_COORDINATE n). \<forall>v \<in> set pt.
                 0 \<le> v \<and> v < of_int MAX_COORDINATE)
           \<and> (\<forall>i<n. \<forall>j<3. (rows ! i ! j = of_int MAX_COORDINATE)
                 = (first_max_draw \<le> uint (gen s (3 * i + j))))
           \<and> ((\<forall>i<3 * n. uint (gen s i) < first_max_draw) \<longrightarrow>
                 (\<forall>row \<in> set rows. \<forall>c \<in> set row. c < of_int MAX_COORDINATE))
           \<and> (\<forall>k. (parse_4f (format_4f (coordinate_of MAX_COORDINATE k)) = Some (of_int MAX_COORDINATE))
                 = (first_max_draw \<le> uint k))"
proof -
  let ?pts = "points_of (gen s) MAX_COORDINATE n"
  let ?rows = "map (map round4) ?pts"
  have po: "parsed_output (generate_points gen s MAX_COORDINATE n p w) p = Some ?rows"
    using assms by (rule written_rows)
  have raw: "\<forall>pt \<in> set ?pts. \<forall>v \<in> set pt. 0 \<le> v \<and> v < of_int MAX_COORDINATE"
    by (auto simp: points_of_def point_of_nonneg point_of_less)
  have closed: "\<forall>row \<in> set ?rows. \<forall>c \<in> set row. 0 \<le> c \<and> c \<le> of_int MAX_COORDINATE"
  proof (intro ballI)
    fix row c assume "row \<in> set ?rows" and c: "c \<in> set row"
    then obtain pt where pt: "pt \<in> set ?pts" and row: "row = map round4 pt" by auto
    from c row obtain v where v: "v \<in> set pt" and cv: "c = round4 v" by auto
    from raw pt v have "0 \<le> v \<and> v < of_int MAX_COORDINATE" by blast
    then have "0 \<le> v" and "v \<le> of_int MAX_COORDINATE" by simp_all
    then show "0 \<le> c \<and> c \<le> of_int MAX_COORDINATE"
      unfolding cv by (simp add: round4_nonneg round4_le_int)
  qed
  have at_max: "\<forall>i<n. \<forall>j<3. (?rows ! i ! j = of_int MAX_COORDINATE)
      = (first_max_draw \<le> uint (gen s (3 * i + j)))"
    by (simp add: written_row_nth written_max_iff)
  have strict: "(\<forall>i<3 * n. uint (gen s i) < first_max_draw) \<longrightarrow>
      (\<forall>row \<in> set ?rows. \<forall>c \<in> set row. c < of_int MAX_COORDINATE)"
  proof (intro impI ballI)
    fix row c
    assume below: "\<forall>i<3 * n. uint (gen s i) < first_max_draw"
      and "row \<in> set ?rows" and c: "c \<in> set row"
    then obtain i where i: "i < n" and row: "row = map round4 (point_of (gen s) MAX_COORDINATE i)"
      by (auto simp: points_of_def)
    from c row obtain j where j: "j < 3"
      and cj: "c = round4 (coordinate_of MAX_COORDINATE (gen s (3 * i + j)))"
      by (auto simp: in_set_conv_nth length_point_of point_of_nth)
    from i j have "3 * i + j < 3 * n" by arith
    with below have "uint (gen s (3 * i + j)) < first_max_draw" by blast
    then show "c < of_int MAX_COORDINATE" unfolding cj by (rule written_below_max)
  qed
  have readback: "\<forall>k. (parse_4f (format_4f (coordinate_of MAX_COORDINATE k)) = Some (of_int MAX_COORDINATE))
      = (first_max_draw \<le> uint k)"
    by (simp add: parse_format_4f coordinate_of_nonneg written_max_iff)
  from po raw closed at_max strict readback show ?thesis
    by (intro exI[of _ ?rows]) (simp add: length_points_of)
qed

lemma boundary_text:
  "format_4f (coordinate_of MAX_COORDINATE 9007199250237392) = ''99999.9999''"
  "format_4f (coordinate_of MAX_COORDINATE 9007199250237393) = ''100000.0000''"
  by code_simp+

lemma boundary_draws:
  "\<not> first_max_draw \<le> uint (9007199250237392 :: 53 word)"
  "first_max_draw \<le> uint (9007199250237393 :: 53 word)"
  by (simp_all add: first_max_draw_def)

text \<open>
  The theorem at a run of two points over an older output file; all six draws are below
  the threshold. The draw \<open>9007199250237392\<close> is the last one written below the maximum,
  as \<^verbatim>\<open>99999.9999\<close>, and the draw \<open>9007199250237393\<close> the first one written as
  \<^verbatim>\<open>100000.0000\<close>.
\<close>

theorem written_coordinates_closed_range_witness:
  "fst (generate_points demo_source SEED MAX_COORDINATE 2 FILE_PATH stale_world) = Exit0 \<and>
   (\<exists>rows. parsed_output (generate_points demo_source SEED MAX_COORDINATE 2 FILE_PATH stale_world) FILE_PATH
              = Some rows
           \<and> length rows = 2
           \<and> (\<forall>row \<in> set rows. \<forall>c \<in> set row. 0 \<le> c \<and> c \<le> of_int MAX_COORDINATE)
           \<and> (\<forall>row \<in> set rows. \<forall>c \<in> set row. c < of_int MAX_COORDINATE))
   \<and> format_4f (coordinate_of MAX_COORDINATE 9007199250237392) = ''99999.9999''
   \<and> parse_4f (format_4f (coordinate_of MAX_COORDINATE 9007199250237392)) \<noteq> Some (of_int MAX_COORDINATE)
   \<and> format_4f (coordinate_of MAX_COORDINATE 9007199250237393) = ''100000.0000''
   \<and> parse_4f (format_4f (coordinate_of MAX_COORDINATE 9007199250237393)) = Some (of_int MAX_COORDINATE)"
proof -
  have 1: "fst (generate_points demo_source SEED MAX_COORDINATE 2 FILE_PATH stale_world) = Exit0"
    by (rule exit_stale) simp
  from written_coordinates_closed_range[OF 1] demo_draws_below 1 boundary_text boundary_draws
  show ?thesis by blast
qed

subsection \<open>Some uniform samples are written as the maximum\<close>

lemma max_coordinate_value:
  "coordinate_of MAX_COORDINATE 9007199254740991 = 6871947673599999 / 68719476736"
proof -
  have u: "uniform_of 9007199254740991 = 9007199254740991 / 2 ^ 53"
    by (simp add: uniform_of_def)
  have "to_double (9007199254740991 / 2 ^ 53 * 100000) = 6871947673599999 / 68719476736"
    by code_simp
  then show ?thesis
    by (simp add: coordinate_of_def fmul_def to_double_MAX u) (simp add: MAX_COORDINATE_def)
qed

lemma max_coordinate_round4: "round4 (6871947673599999 / 68719476736) = 100000"
  by code_simp

lemma max_coordinate_text: "format_4f (6871947673599999 / 68719476736) = ''100000.0000''"
  by code_simp

lemma max_text_value: "parse_4f ''100000.0000'' = Some 100000"
  by code_simp

text \<open>
  Claim C1 as stated (no written coordinate equals or exceeds \<open>MAX_COORDINATE\<close>, for any
  uniform sample in \<open>[0, 1)\<close>) fails at the sample \<open>(2\<^sup>5\<^sup>3 - 1) / 2\<^sup>5\<^sup>3\<close>: it lies in
  \<open>[0, 1)\<close>, its coordinate \<open>100000 - 2\<^sup>-\<^sup>3\<^sup>6\<close> is below \<open>MAX_COORDINATE\<close>, and the text
  written for it is \<^verbatim>\<open>100000.0000\<close>, which reads back as \<open>MAX_COORDINATE\<close>.
\<close>

theorem written_coordinate_reaches_max:
  "0 \<le> uniform_of 9007199254740991
   \<and> uniform_of 9007199254740991 < 1
   \<and> coordinate_of MAX_COORDINATE 9007199254740991 = 100000 - 1 / 2 ^ 36
   \<and> format_4f (coordinate_of MAX_COORDINATE 9007199254740991) = ''100000.0000''
   \<and> parse_4f (format_4f (coordinate_of MAX_COORDINATE 9007199254740991)) = Some (of_int MAX_COORDINATE)"
proof -
  have "uniform_of 9007199254740991 \<le> 1 - 1 / 2 ^ 53" by (rule uniform_of_bounds)
  then have "uniform_of 9007199254740991 < 1" by simp
  moreover have "0 \<le> uniform_of 9007199254740991" by (rule uniform_of_bounds)
  moreover have "parse_4f ''100000.0000'' = Some (of_int MAX_COORDINATE)"
    by (simp add: max_text_value MAX_COORDINATE_def)
  ultimately show ?thesis
    by (simp add: max_coordinate_value max_coordinate_text)
qed

subsection \<open>Determinism\<close>

text \<open>
  Claim C2. The content of the output file after a successful run is \<open>text_of\<close> of the
  stream of the seed, the scale and the count. Two runs with the same seed, count and
  scale write the same bytes, whatever the file system held before, whatever was on the
  terminal, whatever state the generator was in before seeding, and whatever the stream
  holds beyond the \<open>3n\<close> draws.
\<close>

theorem output_deterministic:
  assumes "fst (generate_points gen s m n p w) = Exit0"
    and "fst (generate_points gen' s m n p w') = Exit0"
    and "\<forall>i<3 * n. gen' s i = gen s i"
  shows "output_of (generate_points gen s m n p w) p
           = output_of (generate_points gen' s m n p w') p
       \<and> output_of (generate_points gen s m n p w) p = Some (text_of (gen s) m n)"
proof -
  have "points_of (gen' s) m n = points_of (gen s) m n"
    using assms(3) by (rule points_of_cong)
  then have "text_of (gen' s) m n = text_of (gen s) m n"
    by (simp add: text_of_def)
  then show ?thesis
    by (simp add: run_ok(1)[OF assms(1)] run_ok(1)[OF assms(2)])
qed

text \<open>Two runs of two points: into an empty directory, and over an older output file.\<close>

theorem output_deterministic_witness:
  "fst (generate_points demo_source SEED MAX_COORDINATE 2 FILE_PATH demo_world) = Exit0
   \<and> fst (generate_points demo_source SEED MAX_COORDINATE 2 FILE_PATH stale_world) = Exit0
   \<and> output_of (generate_points demo_source SEED MAX_COORDINATE 2 FILE_PATH demo_world) FILE_PATH
       = output_of (generate_points demo_source SEED MAX_COORDINATE 2 FILE_PATH stale_world) FILE_PATH
   \<and> output_of (generate_points demo_source SEED MAX_COORDINATE 2 FILE_PATH demo_world) FILE_PATH
       = Some (''13706.4570 27412.9139 41119.3709'' @ newline
               @ ''54825.8279 68532.2849 82238.7418'' @ newline)"
proof -
  have 1: "fst (generate_points demo_source SEED MAX_COORDINATE 2 FILE_PATH demo_world) = Exit0"
    by (rule exit_demo) simp
  have 2: "fst (generate_points demo_source SEED MAX_COORDINATE 2 FILE_PATH stale_world) = Exit0"
    by (rule exit_stale) simp
  have 3: "\<forall>i<3 * 2. demo_source SEED i = demo_source SEED i" by simp
  from output_deterministic[OF 1 2 3] 1 2 show ?thesis unfolding demo_text by blast
qed

subsection \<open>Number of lines\<close>

text \<open>
  Claim C3. After a successful run the output file consists of exactly \<open>n\<close> lines, each
  ended by a newline; the lines are the formatted points and nothing else, so there is
  no header and nothing after the last point.
\<close>

theorem output_line_count:
  assumes "fst (generate_points gen s MAX_COORDINATE n p w) = Exit0"
  shows "\<exists>text ls. output_of (generate_points gen s MAX_COORDINATE n p w) p = Some text
           \<and> lines_of text = Some ls
           \<and> length ls = n
           \<and> ls = map format_row (points_of (gen s) MAX_COORDINATE n)
           \<and> text = concat (map (\<lambda>l. l @ newline) ls)"
proof -
  have "text_of (gen s) MAX_COORDINATE n
      = concat (map (\<lambda>l. l @ newline) (map format_row (points_of (gen s) MAX_COORDINATE n)))"
    by (simp add: text_of_def comp_def)
  then show ?thesis
    using run_ok(1)[OF assms] lines_of_text[of "gen s" n]
    by (simp add: length_points_of)
qed

theorem output_line_count_witness:
  "fst (generate_points demo_source SEED MAX_COORDINATE 2 FILE_PATH demo_world) = Exit0
   \<and> (\<exists>text ls. output_of (generate_points demo_source SEED MAX_COORDINATE 2 FILE_PATH demo_world) FILE_PATH
                   = Some text
           \<and> lines_of text = Some ls
           \<and> length ls = 2
           \<and> ls = map format_row (points_of (demo_source SEED) MAX_COORDINATE 2)
           \<and> text = concat (map (\<lambda>l. l @ newline) ls))
   \<and> lines_of (''13706.4570 27412.9139 41119.3709'' @ newline
                 @ ''54825.8279 68532.2849 82238.7418'' @ newline)
       = Some [''13706.4570 27412.9139 41119.3709'', ''54825.8279 68532.2849 82238.7418'']"
  using output_line_count[of demo_source SEED 2 FILE_PATH demo_world]
  by (simp add: exit_demo) (simp add: lines_of_def newline_def)

subsection \<open>Format of a line\<close>

text \<open>
  Claim C4. After a successful run every line of the output file is three fields
  separated by single spaces, and every field is fixed-point text: one or more digits,
  a point, exactly four digits. The same holds for the text of any value that is not
  negative, however small or large.
\<close>

theorem output_line_format:
  assumes "fst (generate_points gen s MAX_COORDINATE n p w) = Exit0"
  shows "(\<exists>text ls. output_of (generate_points gen s MAX_COORDINATE n p w) p = Some text
           \<and> lines_of text = Some ls
           \<and> (\<forall>l \<in> set ls. \<exists>a b c. split_on CHR '' '' l = [a, b, c]
                  \<and> is_fixed4 a \<and> is_fixed4 b \<and> is_fixed4 c))
       \<and> (\<forall>x\<ge>0. is_fixed4 (format_4f x))"
proof -
  let ?ls = "map format_row (points_of (gen s) MAX_COORDINATE n)"
  have "\<forall>l \<in> set ?ls. \<exists>a b c. split_on CHR '' '' l = [a, b, c]
          \<and> is_fixed4 a \<and> is_fixed4 b \<and> is_fixed4 c"
  proof
    fix l assume "l \<in> set ?ls"
    then obtain i where l: "l = format_row (point_of (gen s) MAX_COORDINATE i)"
      by (auto simp: points_of_def)
    show "\<exists>a b c. split_on CHR '' '' l = [a, b, c] \<and> is_fixed4 a \<and> is_fixed4 b \<and> is_fixed4 c"
      unfolding l point_of_def
      by (simp add: split_format_row3 coordinate_of_nonneg is_fixed4_format_4f)
  qed
  then show ?thesis
    using run_ok(1)[OF assms] lines_of_text[of "gen s" n]
    by (simp add: is_fixed4_format_4f)
qed

theorem output_line_format_witness:
  "fst (generate_points demo_source SEED MAX_COORDINATE 2 FILE_PATH demo_world) = Exit0
   \<and> (\<exists>text ls. output_of (generate_points demo_source SEED MAX_COORDINATE 2 FILE_PATH demo_world) FILE_PATH
                   = Some text
           \<and> lines_of text = Some ls
           \<and> (\<forall>l \<in> set ls. \<exists>a b c. split_on CHR '' '' l = [a, b, c]
                  \<and> is_fixed4 a \<and> is_fixed4 b \<and> is_fixed4 c))
   \<and> is_fixed4 (format_4f 0)
   \<and> is_fixed4 (format_4f (1 / 10 ^ 30))
   \<and> is_fixed4 (format_4f (10 ^ 30))"
proof -
  have 1: "fst (generate_points demo_source SEED MAX_COORDINATE 2 FILE_PATH demo_world) = Exit0"
    by (rule exit_demo) simp
  have 2: "(0::rat) \<le> 0" "(0::rat) \<le> 1 / 10 ^ 30" "(0::rat) \<le> 10 ^ 30" by simp_all
  from output_line_format[OF 1] 1 2 show ?thesis by blast
qed

subsection \<open>Draws, scaling and order\<close>

lemma demo_rows:
  "map (map round4) (points_of (demo_source SEED) MAX_COORDINATE 2)
     = [[137064570 / 10000, 274129139 / 10000, 411193709 / 10000],
        [548258279 / 10000, 685322849 / 10000, 822387418 / 10000]]"
  by code_simp

lemma demo_uniform:
  "uniform_of (demo_source SEED 0) = 1234567890123456 / 2 ^ 53"
  "uniform_of (demo_source SEED 5) = 7407407340740736 / 2 ^ 53"
  by (simp_all add: uniform_of_def demo_source_def)

lemma written_product_error:
  "\<bar>round4 (coordinate_of MAX_COORDINATE k) - uniform_of k * of_int MAX_COORDINATE\<bar>
     \<le> 5 / 100000 + 1 / 2 ^ 37"
proof -
  define c where "c = coordinate_of MAX_COORDINATE k"
  define q where "q = uniform_of k * of_int MAX_COORDINATE"
  define r where "r = round4 c"
  have "\<bar>r - c\<bar> \<le> 5 / 100000" unfolding r_def by (rule round4_error)
  moreover have "\<bar>c - q\<bar> \<le> 1 / 2 ^ 37" unfolding c_def q_def by (rule coordinate_of_error)
  ultimately have "\<bar>r - q\<bar> \<le> 5 / 100000 + 1 / 2 ^ 37" by linarith
  then show ?thesis unfolding r_def c_def q_def .
qed

text \<open>
  Claim C5. A successful run takes exactly \<open>3n\<close> draws from the stream of the seed,
  starting at its first draw; every draw is a number in \<open>[0, 1)\<close>. Line \<open>i\<close> of the
  output file is the text of point \<open>i\<close>, whose three coordinates are the draws \<open>3i\<close>,
  \<open>3i + 1\<close>, \<open>3i + 2\<close>, each multiplied in binary64 by the scale; nothing is reordered,
  dropped or added. Read back as numbers, the file has \<open>n\<close> rows of three values, and
  value \<open>j\<close> of row \<open>i\<close> is the exact product of draw \<open>3i + j\<close> and \<open>MAX_COORDINATE\<close>
  up to the two roundings (to binary64, \<open>2\<^sup>-\<^sup>3\<^sup>7\<close>, and to four decimals,
  \<open>5 \<sqdot> 10\<^sup>-\<^sup>5\<close>).
\<close>

theorem points_in_generation_order:
  assumes "fst (generate_points gen s MAX_COORDINATE n p w) = Exit0"
  shows "rng (snd (generate_points gen s MAX_COORDINATE n p w)) = \<lparr>stream = gen s, pos = 3 * n\<rparr>
       \<and> (\<forall>i. 0 \<le> uniform_of (gen s i) \<and> uniform_of (gen s i) < 1)
       \<and> (\<exists>text ls. output_of (generate_points gen s MAX_COORDINATE n p w) p = Some text
             \<and> lines_of text = Some ls
             \<and> length ls = n
             \<and> (\<forall>i<n. ls ! i =
                   format_row [fmul (uniform_of (gen s (3 * i))) (of_int MAX_COORDINATE),
                               fmul (uniform_of (gen s (3 * i + 1))) (of_int MAX_COORDINATE),
                               fmul (uniform_of (gen s (3 * i + 2))) (of_int MAX_COORDINATE)]))
       \<and> (\<exists>rows. parsed_output (generate_points gen s MAX_COORDINATE n p w) p = Some rows
             \<and> length rows = n
             \<and> (\<forall>i<n. length (rows ! i) = 3
                   \<and> (\<forall>j<3. \<bar>rows ! i ! j - uniform_of (gen s (3 * i + j)) * of_int MAX_COORDINATE\<bar>
                          \<le> 5 / 100000 + 1 / 2 ^ 37)))"
proof -
  let ?ls = "map format_row (points_of (gen s) MAX_COORDINATE n)"
  let ?rows = "map (map round4) (points_of (gen s) MAX_COORDINATE n)"
  have "\<forall>i<n. ?ls ! i =
      format_row [fmul (uniform_of (gen s (3 * i))) (of_int MAX_COORDINATE),
                  fmul (uniform_of (gen s (3 * i + 1))) (of_int MAX_COORDINATE),
                  fmul (uniform_of (gen s (3 * i + 2))) (of_int MAX_COORDINATE)]"
    by (simp add: points_of_def point_of_def coordinate_of_def to_double_MAX)
  moreover have "\<forall>i. 0 \<le> uniform_of (gen s i) \<and> uniform_of (gen s i) < 1"
  proof
    fix i
    have "uniform_of (gen s i) \<le> 1 - 1 / 2 ^ 53" by (rule uniform_of_bounds)
    then show "0 \<le> uniform_of (gen s i) \<and> uniform_of (gen s i) < 1"
      by (simp add: uniform_of_bounds(1))
  qed
  ultimately have lines: "rng (snd (generate_points gen s MAX_COORDINATE n p w)) = \<lparr>stream = gen s, pos = 3 * n\<rparr>
       \<and> (\<forall>i. 0 \<le> uniform_of (gen s i) \<and> uniform_of (gen s i) < 1)
       \<and> (\<exists>text ls. output_of (generate_points gen s MAX_COORDINATE n p w) p = Some text
             \<and> lines_of text = Some ls
             \<and> length ls = n
             \<and> (\<forall>i<n. ls ! i =
                   format_row [fmul (uniform_of (gen s (3 * i))) (of_int MAX_COORDINATE),
                               fmul (uniform_of (gen s (3 * i + 1))) (of_int MAX_COORDINATE),
                               fmul (uniform_of (gen s (3 * i + 2))) (of_int MAX_COORDINATE)]))"
    using run_ok(1,3)[OF assms] lines_of_text[of "gen s" n]
    by (simp add: length_points_of)
  have rows: "\<forall>i<n. length (?rows ! i) = 3
      \<and> (\<forall>j<3. \<bar>?rows ! i ! j - uniform_of (gen s (3 * i + j)) * of_int MAX_COORDINATE\<bar>
             \<le> 5 / 100000 + 1 / 2 ^ 37)"
  proof (intro allI impI conjI)
    fix i :: nat assume "i < n"
    then show "length (?rows ! i) = 3" by (simp add: points_of_def length_point_of)
  next
    fix i j :: nat assume "i < n" and "j < 3"
    then have "?rows ! i ! j = round4 (coordinate_of MAX_COORDINATE (gen s (3 * i + j)))"
      by (rule written_row_nth)
    then show "\<bar>?rows ! i ! j - uniform_of (gen s (3 * i + j)) * of_int MAX_COORDINATE\<bar>
        \<le> 5 / 100000 + 1 / 2 ^ 37"
      using written_product_error[of "gen s (3 * i + j)"] by simp
  qed
  have len: "length ?rows = n" by (simp add: length_points_of)
  have "\<exists>rows. parsed_output (generate_points gen s MAX_COORDINATE n p w) p = Some rows
       \<and> length rows = n
       \<and> (\<forall>i<n. length (rows ! i) = 3
             \<and> (\<forall>j<3. \<bar>rows ! i ! j - uniform_of (gen s (3 * i + j)) * of_int MAX_COORDINATE\<bar>
                    \<le> 5 / 100000 + 1 / 2 ^ 37))"
    by (rule exI[of _ ?rows], intro conjI, rule written_rows[OF assms], rule len, rule rows)
  with lines show ?thesis by blast
qed

text \<open>
  The theorem at a run of two points over an older output file, with the bytes that are
  written: the draws \<open>1234567890123456 / 2\<^sup>5\<^sup>3\<close> and \<open>7407407340740736 / 2\<^sup>5\<^sup>3\<close>
  (about \<open>0.137\<close> and \<open>0.822\<close>) are the first value of the first line and the last value
  of the second.
\<close>

theorem points_in_generation_order_witness:
  "fst (generate_points demo_source SEED MAX_COORDINATE 2 FILE_PATH stale_world) = Exit0
   \<and> rng (snd (generate_points demo_source SEED MAX_COORDINATE 2 FILE_PATH stale_world))
       = \<lparr>stream = demo_source SEED, pos = 3 * 2\<rparr>
   \<and> output_of (generate_points demo_source SEED MAX_COORDINATE 2 FILE_PATH stale_world) FILE_PATH
       = Some (''13706.4570 27412.9139 41119.3709'' @ newline
               @ ''54825.8279 68532.2849 82238.7418'' @ newline)
   \<and> uniform_of (demo_source SEED 0) = 1234567890123456 / 2 ^ 53
   \<and> uniform_of (demo_source SEED 5) = 7407407340740736 / 2 ^ 53
   \<and> (\<exists>rows. parsed_output (generate_points demo_source SEED MAX_COORDINATE 2 FILE_PATH stale_world) FILE_PATH
                = Some rows
         \<and> rows = [[137064570 / 10000, 274129139 / 10000, 411193709 / 10000],
                    [548258279 / 10000, 685322849 / 10000, 822387418 / 10000]]
         \<and> length rows = 2
         \<and> (\<forall>i<2. length (rows ! i) = 3
               \<and> (\<forall>j<3. \<bar>rows ! i ! j - uniform_of (demo_source SEED (3 * i + j)) * of_int MAX_COORDINATE\<bar>
                      \<le> 5 / 100000 + 1 / 2 ^ 37)))"
proof -
  have 1: "fst (generate_points demo_source SEED MAX_COORDINATE 2 FILE_PATH stale_world) = Exit0"
    by (rule exit_stale) simp
  have 2: "output_of (generate_points demo_source SEED MAX_COORDINATE 2 FILE_PATH stale_world) FILE_PATH
       = Some (''13706.4570 27412.9139 41119.3709'' @ newline
               @ ''54825.8279 68532.2849 82238.7418'' @ newline)"
    unfolding run_ok(1)[OF 1] demo_text ..
  have 3: "parsed_output (generate_points demo_source SEED MAX_COORDINATE 2 FILE_PATH stale_world) FILE_PATH
       = Some [[137064570 / 10000, 274129139 / 10000, 411193709 / 10000],
               [548258279 / 10000, 685322849 / 10000, 822387418 / 10000]]"
    unfolding written_rows[OF 1] demo_rows ..
  from points_in_generation_order[OF 1] 1 2 3 demo_uniform show ?thesis
    by (simp del: One_nat_def)
qed

subsection \<open>The confirmation message\<close>

lemma confirmation_script:
  "confirmation NUM_POINTS FILE_PATH = ''100000 points are written to ./data/points.txt'' @ newline"
  by (simp add: confirmation_def NUM_POINTS_def FILE_PATH_def str_int_def str_digits.simps
        digit_char_def)

text \<open>
  Claim C6. The script takes no argument: its seed, scale, count and path are the
  literals \<open>1701\<close>, \<open>100000\<close>, \<open>100000\<close> and \<^verbatim>\<open>./data/points.txt\<close>. When it completes
  normally it has added exactly one line to standard output,
  \<^verbatim>\<open>100000 points are written to ./data/points.txt\<close>.
\<close>

theorem confirmation_message:
  assumes "fst (main gen w) = Exit0"
  shows "stdout (snd (main gen w))
           = stdout w @ ''100000 points are written to ./data/points.txt'' @ newline
       \<and> main gen w = generate_points gen 1701 100000 100000 ''./data/points.txt'' w"
proof -
  have m: "main gen w = generate_points gen SEED MAX_COORDINATE NUM_POINTS FILE_PATH w"
    by (simp add: main_def)
  have "stdout (snd (main gen w)) = stdout w @ confirmation NUM_POINTS FILE_PATH"
    using assms unfolding m by (rule run_ok(2))
  then show ?thesis
    by (simp add: confirmation_script)
       (simp add: main_def SEED_def MAX_COORDINATE_def NUM_POINTS_def FILE_PATH_def)
qed

theorem confirmation_message_witness:
  "fst (main demo_source stale_world) = Exit0
   \<and> stdout (snd (main demo_source stale_world))
       = ''$ 100000 points are written to ./data/points.txt'' @ newline
   \<and> main demo_source stale_world
       = generate_points demo_source 1701 100000 100000 ''./data/points.txt'' stale_world"
proof -
  have 1: "fst (main demo_source stale_world) = Exit0"
    unfolding main_def by (rule exit_stale) (simp add: NUM_POINTS_def)
  have 2: "stdout stale_world = ''$ ''" by (simp add: stale_world_def)
  have 3: "''$ '' @ ''100000 points are written to ./data/points.txt'' @ newline
      = ''$ 100000 points are written to ./data/points.txt'' @ newline" by simp
  from confirmation_message[OF 1] 1 show ?thesis unfolding 2 3 by blast
qed

subsection \<open>Failure of the run\<close>

lemma text_of_split:
  assumes "a \<le> n"
  shows "text_of g m n = text_of g m a
           @ concat (map (\<lambda>pt. format_row pt @ newline) (map (point_of g m) [a..<n]))"
proof -
  from assms have "[0..<n] = [0..<a] @ [a..<n]"
    by (metis le_add_diff_inverse upt_add_eq_append zero_le)
  then show ?thesis by (simp add: text_of_def points_of_def)
qed

lemma demo_text_prefix:
  assumes "2 \<le> n"
  shows "take 40 (text_of (demo_source SEED) MAX_COORDINATE n)
           = ''13706.4570 27412.9139 41119.3709'' @ newline @ ''54825.8''"
proof -
  have "take 40 (text_of (demo_source SEED) MAX_COORDINATE 2)
      = ''13706.4570 27412.9139 41119.3709'' @ newline @ ''54825.8''"
    unfolding demo_text by (simp add: newline_def)
  moreover have "length (text_of (demo_source SEED) MAX_COORDINATE 2) = 66"
    unfolding demo_text by (simp add: newline_def)
  ultimately show ?thesis
    unfolding text_of_split[OF assms] by simp
qed





subsection \<open>No points\<close>

text \<open>
  Claim C8. With a count of \<open>0\<close> a successful run leaves an output file with no line in
  it and prints \<^verbatim>\<open>0 points are written to\<close> followed by the path.
\<close>

theorem zero_points:
  assumes "fst (generate_points gen s m 0 p w) = Exit0"
  shows "output_of (generate_points gen s m 0 p w) p = Some []
       \<and> lines_of [] = Some []
       \<and> stdout (snd (generate_points gen s m 0 p w))
           = stdout w @ ''0 points are written to '' @ p @ newline"
  using run_ok(1,2)[OF assms]
  by (simp add: text_of_def points_of_def lines_of_def confirmation_def str_int_def
        str_digits.simps digit_char_def)

theorem zero_points_witness:
  "fst (generate_points demo_source SEED MAX_COORDINATE 0 FILE_PATH stale_world) = Exit0
   \<and> output_of (generate_points demo_source SEED MAX_COORDINATE 0 FILE_PATH stale_world) FILE_PATH = Some []
   \<and> lines_of [] = Some []
   \<and> stdout (snd (generate_points demo_source SEED MAX_COORDINATE 0 FILE_PATH stale_world))
       = ''$ 0 points are written to ./data/points.txt'' @ newline"
proof -
  have 1: "fst (generate_points demo_source SEED MAX_COORDINATE 0 FILE_PATH stale_world) = Exit0"
    by (rule exit_stale) simp
  from zero_points[OF 1] 1 show ?thesis by (simp add: stale_world_def FILE_PATH_def)
qed

subsection \<open>The message comes after the file\<close>

text \<open>
  Claim C9. If opening or writing the output file raises an error, nothing is printed:
  standard output is unchanged. In particular a run whose open succeeds and whose disk
  is full before the last byte is written ends with the error of the write, with
  standard output unchanged. The message is printed only by a run that has written the
  whole file.
\<close>

theorem message_only_after_write:
  "(fst (generate_points gen s m n p w) = Uncaught e \<longrightarrow>
      stdout (snd (generate_points gen s m n p w)) = stdout w)
   \<and> ((\<exists>fs. open_w p (files w) = Inr fs)
        \<and> free w + truncated p (files w) < length (text_of (gen s) m n) \<longrightarrow>
        fst (generate_points gen s m n p w) = Uncaught NoSpaceError
        \<and> output_of (generate_points gen s m n p w) p
            = Some (take (free w + truncated p (files w)) (text_of (gen s) m n))
        \<and> stdout (snd (generate_points gen s m n p w)) = stdout w)
   \<and> (stdout (snd (generate_points gen s m n p w)) \<noteq> stdout w \<longrightarrow>
        fst (generate_points gen s m n p w) = Exit0
        \<and> output_of (generate_points gen s m n p w) p = Some (text_of (gen s) m n)
        \<and> stdout (snd (generate_points gen s m n p w)) = stdout w @ confirmation n p)"
proof (intro conjI impI)
  assume "fst (generate_points gen s m n p w) = Uncaught e"
  then show "stdout (snd (generate_points gen s m n p w)) = stdout w"
    by (rule run_fail(1))
next
  assume a: "(\<exists>fs. open_w p (files w) = Inr fs)
      \<and> free w + truncated p (files w) < length (text_of (gen s) m n)"
  then obtain fs where o: "open_w p (files w) = Inr fs" by blast
  from a have f: "free w + truncated p (files w) < length (text_of (gen s) m n)" by blast
  show e: "fst (generate_points gen s m n p w) = Uncaught NoSpaceError"
    using o f by (rule run_full(1))
  show "output_of (generate_points gen s m n p w) p
      = Some (take (free w + truncated p (files w)) (text_of (gen s) m n))"
    using o f by (rule run_full(2))
  show "stdout (snd (generate_points gen s m n p w)) = stdout w"
    using e by (rule run_fail(1))
next
  assume ch: "stdout (snd (generate_points gen s m n p w)) \<noteq> stdout w"
  show ok: "fst (generate_points gen s m n p w) = Exit0"
  proof (cases "fst (generate_points gen s m n p w)")
    case Exit0
    then show ?thesis .
  next
    case (Uncaught e')
    from run_fail(1)[OF this] ch show ?thesis by simp
  qed
  from run_ok(1)[OF ok] show "output_of (generate_points gen s m n p w) p = Some (text_of (gen s) m n)" .
  from run_ok(2)[OF ok] show "stdout (snd (generate_points gen s m n p w)) = stdout w @ confirmation n p" .
qed

text \<open>
  A run that fails at the open (no directory), a run that fails at a write (the disk
  takes 40 of the 66 bytes of two points) and a successful one.
\<close>

theorem message_only_after_write_witness:
  "fst (generate_points demo_source SEED MAX_COORDINATE 2 FILE_PATH bare_world) = Uncaught FileNotFoundError
   \<and> stdout (snd (generate_points demo_source SEED MAX_COORDINATE 2 FILE_PATH bare_world)) = stdout bare_world
   \<and> open_w FILE_PATH (files full_world) = Inr ((files full_world)(FILE_PATH \<mapsto> File True []))
   \<and> length (text_of (demo_source SEED) MAX_COORDINATE 2) = 66
   \<and> fst (generate_points demo_source SEED MAX_COORDINATE 2 FILE_PATH full_world) = Uncaught NoSpaceError
   \<and> output_of (generate_points demo_source SEED MAX_COORDINATE 2 FILE_PATH full_world) FILE_PATH
       = Some (''13706.4570 27412.9139 41119.3709'' @ newline @ ''54825.8'')
   \<and> stdout (snd (generate_points demo_source SEED MAX_COORDINATE 2 FILE_PATH full_world)) = ''$ ''
   \<and> stdout (snd (generate_points demo_source SEED MAX_COORDINATE 2 FILE_PATH demo_world)) \<noteq> stdout demo_world
   \<and> fst (generate_points demo_source SEED MAX_COORDINATE 2 FILE_PATH demo_world) = Exit0
   \<and> output_of (generate_points demo_source SEED MAX_COORDINATE 2 FILE_PATH demo_world) FILE_PATH
       = Some (''13706.4570 27412.9139 41119.3709'' @ newline
               @ ''54825.8279 68532.2849 82238.7418'' @ newline)
   \<and> stdout (snd (generate_points demo_source SEED MAX_COORDINATE 2 FILE_PATH demo_world))
       = ''2 points are written to ./data/points.txt'' @ newline"
proof -
  have 1: "fst (generate_points demo_source SEED MAX_COORDINATE 2 FILE_PATH bare_world)
      = Uncaught FileNotFoundError" by (rule exit_bare)
  have ok: "fst (generate_points demo_source SEED MAX_COORDINATE 2 FILE_PATH demo_world) = Exit0"
    by (rule exit_demo) simp
  have 2: "stdout (snd (generate_points demo_source SEED MAX_COORDINATE 2 FILE_PATH demo_world))
      \<noteq> stdout demo_world"
    by (simp add: run_ok(2)[OF ok] confirmation_def newline_def)
  have 3: "length (text_of (demo_source SEED) MAX_COORDINATE 2) = 66"
    unfolding demo_text by (simp add: newline_def)
  have 4: "(\<exists>fs. open_w FILE_PATH (files full_world) = Inr fs)
      \<and> free full_world + truncated FILE_PATH (files full_world)
          < length (text_of (demo_source SEED) MAX_COORDINATE 2)"
    by (simp add: open_full room_full 3)
  have 5: "take 40 (text_of (demo_source SEED) MAX_COORDINATE 2)
      = ''13706.4570 27412.9139 41119.3709'' @ newline @ ''54825.8''"
    by (rule demo_text_prefix) simp
  have 6: "stdout full_world = ''$ ''" "stdout demo_world = []"
    by (simp_all add: full_world_def demo_world_def)
  have 7: "confirmation 2 FILE_PATH = ''2 points are written to ./data/points.txt'' @ newline"
    by (simp add: confirmation_def FILE_PATH_def str_int_def str_digits.simps digit_char_def)
  have bare: "stdout (snd (generate_points demo_source SEED MAX_COORDINATE 2 FILE_PATH bare_world))
      = stdout bare_world"
    using message_only_after_write[of demo_source SEED MAX_COORDINATE 2 FILE_PATH bare_world
        FileNotFoundError] 1 by blast
  have full: "fst (generate_points demo_source SEED MAX_COORDINATE 2 FILE_PATH full_world)
        = Uncaught NoSpaceError
      \<and> output_of (generate_points demo_source SEED MAX_COORDINATE 2 FILE_PATH full_world) FILE_PATH
        = Some (''13706.4570 27412.9139 41119.3709'' @ newline @ ''54825.8'')
      \<and> stdout (snd (generate_points demo_source SEED MAX_COORDINATE 2 FILE_PATH full_world)) = ''$ ''"
    using message_only_after_write[of demo_source SEED MAX_COORDINATE 2 FILE_PATH full_world
        NoSpaceError] 4
    unfolding room_full 5 6 by blast
  have demo: "output_of (generate_points demo_source SEED MAX_COORDINATE 2 FILE_PATH demo_world) FILE_PATH
       = Some (''13706.4570 27412.9139 41119.3709'' @ newline
               @ ''54825.8279 68532.2849 82238.7418'' @ newline)
      \<and> stdout (snd (generate_points demo_source SEED MAX_COORDINATE 2 FILE_PATH demo_world))
       = ''2 points are written to ./data/points.txt'' @ newline"
    using message_only_after_write[of demo_source SEED MAX_COORDINATE 2 FILE_PATH demo_world
        NoSpaceError] 2
    unfolding demo_text 6 7 by simp
  from 1 bare open_full 3 full 2 ok demo show ?thesis by blast
qed

subsection \<open>Error of the written value\<close>

lemma round4_nearest: "\<bar>round4 v - v\<bar> \<le> \<bar>of_int j / 10000 - v\<bar>"
proof -
  define a where "a = round_half_even (v * 10000)"
  have b: "of_int a - v * 10000 \<le> 1 / 2" "v * 10000 - of_int a \<le> 1 / 2"
    unfolding a_def by (rule rhe_upper, rule rhe_lower)
  have "\<bar>of_int a - v * 10000\<bar> \<le> \<bar>of_int j - v * 10000\<bar>"
  proof (cases "j = a")
    case True
    then show ?thesis by simp
  next
    case False
    then have "j \<le> a - 1 \<or> a + 1 \<le> j" by linarith
    then have "(of_int j :: rat) \<le> of_int a - 1 \<or> (of_int a :: rat) + 1 \<le> of_int j"
      by (metis of_int_1 of_int_add of_int_diff of_int_le_iff)
    with b show ?thesis by (auto simp: abs_le_iff abs_if)
  qed
  moreover have "round4 v - v = (of_int a - v * 10000) / 10000"
    by (simp add: round4_def a_def diff_divide_distrib)
  moreover have "of_int j / 10000 - v = (of_int j - v * 10000) / 10000"
    by (simp add: diff_divide_distrib)
  ultimately show ?thesis by (simp only: abs_divide) (simp add: divide_right_mono)
qed

text \<open>
  Claim C10. After a successful run the file reads back as the generated coordinates,
  each rounded to four decimals. For every generated coordinate the written text reads
  back as a multiple of \<open>10\<^sup>-\<^sup>4\<close> that differs from the coordinate by at most
  \<open>5 \<sqdot> 10\<^sup>-\<^sup>5\<close>, and no multiple of \<open>10\<^sup>-\<^sup>4\<close> is nearer.
\<close>

theorem written_value_error:
  assumes "fst (generate_points gen s MAX_COORDINATE n p w) = Exit0"
  shows "parsed_output (generate_points gen s MAX_COORDINATE n p w) p
           = Some (map (map round4) (points_of (gen s) MAX_COORDINATE n))
       \<and> (\<forall>pt \<in> set (points_of (gen s) MAX_COORDINATE n). \<forall>v \<in> set pt.
             parse_4f (format_4f v) = Some (round4 v)
             \<and> \<bar>round4 v - v\<bar> \<le> 5 / 100000
             \<and> round4 v = of_int (scaled v) / 10000
             \<and> (\<forall>j. \<bar>round4 v - v\<bar> \<le> \<bar>of_int j / 10000 - v\<bar>))"
proof -
  have "parsed_output (generate_points gen s MAX_COORDINATE n p w) p
      = Some (map (map round4) (points_of (gen s) MAX_COORDINATE n))"
    by (simp add: parsed_output_def run_ok(1)[OF assms] parse_text_text)
  moreover have "\<forall>pt \<in> set (points_of (gen s) MAX_COORDINATE n). \<forall>v \<in> set pt.
             parse_4f (format_4f v) = Some (round4 v)
             \<and> \<bar>round4 v - v\<bar> \<le> 5 / 100000
             \<and> round4 v = of_int (scaled v) / 10000
             \<and> (\<forall>j. \<bar>round4 v - v\<bar> \<le> \<bar>of_int j / 10000 - v\<bar>)"
  proof (intro ballI)
    fix pt v assume "pt \<in> set (points_of (gen s) MAX_COORDINATE n)" and "v \<in> set pt"
    then have "0 \<le> v" by (auto simp: points_of_def point_of_nonneg)
    then have "parse_4f (format_4f v) = Some (round4 v)" by (rule parse_format_4f)
    moreover have "\<bar>round4 v - v\<bar> \<le> 5 / 100000" by (rule round4_error)
    moreover have "round4 v = of_int (scaled v) / 10000" by (simp add: round4_def scaled_def)
    ultimately show "parse_4f (format_4f v) = Some (round4 v)
             \<and> \<bar>round4 v - v\<bar> \<le> 5 / 100000
             \<and> round4 v = of_int (scaled v) / 10000
             \<and> (\<forall>j. \<bar>round4 v - v\<bar> \<le> \<bar>of_int j / 10000 - v\<bar>)"
      using round4_nearest[of v] by blast
  qed
  ultimately show ?thesis by blast
qed

text \<open>
  A run of one point whose three draws are the largest one: every coordinate is written
  as \<^verbatim>\<open>100000.0000\<close>, \<open>2\<^sup>-\<^sup>3\<^sup>6\<close> above the coordinate.
\<close>

theorem written_value_error_witness:
  "fst (generate_points max_source SEED MAX_COORDINATE 1 FILE_PATH demo_world) = Exit0
   \<and> points_of (max_source SEED) MAX_COORDINATE 1
       = [[6871947673599999 / 68719476736, 6871947673599999 / 68719476736,
           6871947673599999 / 68719476736]]
   \<and> parsed_output (generate_points max_source SEED MAX_COORDINATE 1 FILE_PATH demo_world) FILE_PATH
       = Some [[100000, 100000, 100000]]
   \<and> parse_4f (format_4f (6871947673599999 / 68719476736)) = Some 100000
   \<and> \<bar>100000 - 6871947673599999 / 68719476736\<bar> \<le> (5 / 100000 :: rat)"
proof -
  have 1: "fst (generate_points max_source SEED MAX_COORDINATE 1 FILE_PATH demo_world) = Exit0"
    by (rule exit_demo) simp
  have 2: "points_of (max_source SEED) MAX_COORDINATE 1
       = [[6871947673599999 / 68719476736, 6871947673599999 / 68719476736,
           6871947673599999 / 68719476736]]"
    by (simp add: points_of_def point_of_def max_source_def max_coordinate_value)
  from written_value_error[OF 1] 1 show ?thesis
    unfolding 2 by (simp add: max_coordinate_round4)
qed

end
